theory Spec2Isabelle
  imports Main
begin

section \<open>The remote control plane as SagemakerManager sees it\<close>

text \<open>
  \<^verbatim>\<open>SagemakerManager\<close> (src/baram/sagemaker_manager.py) wraps a boto3 client. Every
  method of the client is a remote call: it either returns a response or raises. The
  three kinds of exception the manager tells apart are \<^verbatim>\<open>ResourceNotFound\<close>,
  \<^verbatim>\<open>ResourceInUse\<close> and everything else (permission denial, validation errors,
  transport failures), which only the bare \<^verbatim>\<open>except:\<close> of \<^verbatim>\<open>delete_app\<close> catches.
  \<^verbatim>\<open>KeyError\<close> is what subscripting a response with a key it lacks raises.
\<close>

datatype exn = ResourceNotFound | ResourceInUse | ClientError string | KeyError string

text \<open>
  Responses are the dictionaries boto3 returns, modelled as records of the keys the code
  subscripts; the other keys of a response are not read by the code and are left out.
  A described profile need not hold \<^verbatim>\<open>UserSettings\<close>, nor its settings
  \<^verbatim>\<open>ExecutionRole\<close> (a profile can inherit the role of its domain): these two are
  optional, \<open>None\<close> being a missing key.
\<close>

record app =
  AppName :: string
  AppType :: string

record app_description =
  Status :: string

record user_settings =
  ExecutionRole :: "string option"

record profile_summary =
  UserProfileName :: string

record user_profile = profile_summary +
  UserSettings :: "user_settings option"

type_synonym response = "(string \<times> string) list"

text \<open>
  The manager object: \<^verbatim>\<open>self.domain_id\<close> and the methods of \<^verbatim>\<open>self.cli\<close>. The remote
  state has an arbitrary type \<open>'w\<close>; a client method maps it to an outcome
  (\<open>Inl\<close> the exception raised, \<open>Inr\<close> the response) and the next remote state. The
  first argument of each method is the domain id the manager passes on every call.
\<close>

record 'w manager =
  domain_id :: "string option"
  cli_list_user_profiles :: "string option \<Rightarrow> 'w \<Rightarrow> (exn + profile_summary list) \<times> 'w"
  cli_describe_user_profile :: "string option \<Rightarrow> string \<Rightarrow> 'w \<Rightarrow> (exn + user_profile) \<times> 'w"
  cli_list_apps :: "string option \<Rightarrow> string \<Rightarrow> 'w \<Rightarrow> (exn + app list) \<times> 'w"
  cli_describe_app ::
    "string option \<Rightarrow> string \<Rightarrow> string \<Rightarrow> string \<Rightarrow> 'w \<Rightarrow> (exn + app_description) \<times> 'w"
  cli_delete_app ::
    "string option \<Rightarrow> string \<Rightarrow> string \<Rightarrow> string \<Rightarrow> 'w \<Rightarrow> (exn + response) \<times> 'w"
  cli_create_user_profile ::
    "string option \<Rightarrow> string \<Rightarrow> string \<Rightarrow> 'w \<Rightarrow> (exn + response) \<times> 'w"
  cli_delete_user_profile :: "string option \<Rightarrow> string \<Rightarrow> 'w \<Rightarrow> (exn + response) \<times> 'w"

text \<open>
  What a run does is recorded as a trace: one event for each remote call, with its
  arguments and its outcome, and one for each \<^verbatim>\<open>time.sleep\<close>. Log lines and prints
  are not modelled.
\<close>

datatype event =
    ListUserProfiles "exn + profile_summary list"
  | DescribeUserProfile string "exn + user_profile"
  | ListApps string "exn + app list"
  | DescribeApp string string string "exn + app_description"
  | DeleteApp string string string "exn + response"
  | CreateUserProfile string string "exn + response"
  | DeleteUserProfile string "exn + response"
  | Sleep nat

record 'w state =
  world :: 'w
  trace :: "event list"

definition call ::
  "('w \<Rightarrow> (exn + 'a) \<times> 'w) \<Rightarrow> (exn + 'a \<Rightarrow> event) \<Rightarrow> 'w state \<Rightarrow> (exn + 'a) \<times> 'w state" where
  "call f ev s =
     (case f (world s) of (r, w') \<Rightarrow> (r, \<lparr>world = w', trace = trace s @ [ev r]\<rparr>))"

definition sleep :: "nat \<Rightarrow> 'w state \<Rightarrow> 'w state" where
  "sleep n s = s\<lparr>trace := trace s @ [Sleep n]\<rparr>"

section \<open>The wrappers\<close>

definition list_user_profiles ::
  "'w manager \<Rightarrow> 'w state \<Rightarrow> (exn + profile_summary list) \<times> 'w state" where
  "list_user_profiles M = call (cli_list_user_profiles M (domain_id M)) ListUserProfiles"

definition describe_user_profile ::
  "'w manager \<Rightarrow> string \<Rightarrow> 'w state \<Rightarrow> (exn + user_profile) \<times> 'w state" where
  "describe_user_profile M user_profile_name =
     call (cli_describe_user_profile M (domain_id M) user_profile_name)
       (DescribeUserProfile user_profile_name)"

text \<open>\<^verbatim>\<open>list_apps\<close> is only ever called with \<^verbatim>\<open>UserProfileNameEquals\<close>.\<close>

definition list_apps :: "'w manager \<Rightarrow> string \<Rightarrow> 'w state \<Rightarrow> (exn + app list) \<times> 'w state" where
  "list_apps M user_profile_name =
     call (cli_list_apps M (domain_id M) user_profile_name) (ListApps user_profile_name)"

definition describe_app ::
  "'w manager \<Rightarrow> string \<Rightarrow> string \<Rightarrow> string \<Rightarrow> 'w state \<Rightarrow> (exn + app_description) \<times> 'w state" where
  "describe_app M user_profile_name app_name app_type =
     call (cli_describe_app M (domain_id M) user_profile_name app_name app_type)
       (DescribeApp user_profile_name app_name app_type)"

text \<open>
  \<^verbatim>\<open>delete_app\<close> (lines 33-41) returns the response, or \<^verbatim>\<open>None\<close> when the client
  raised: the handler is a bare \<^verbatim>\<open>except:\<close>. The result is a \<open>response option\<close>,
  \<open>None\<close> being Python's \<^verbatim>\<open>None\<close>.
\<close>

definition delete_app ::
  "'w manager \<Rightarrow> string \<Rightarrow> string \<Rightarrow> string \<Rightarrow> 'w state \<Rightarrow>
     (exn + response option) \<times> 'w state" where
  "delete_app M user_profile_name app_name app_type s =
     (case call (cli_delete_app M (domain_id M) user_profile_name app_name app_type)
             (DeleteApp user_profile_name app_name app_type) s of
        (Inr response, s') \<Rightarrow> (Inr (Some response), s')
      | (Inl e, s') \<Rightarrow> (Inr None, s'))"

definition create_user_profile ::
  "'w manager \<Rightarrow> string \<Rightarrow> string \<Rightarrow> 'w state \<Rightarrow> (exn + response) \<times> 'w state" where
  "create_user_profile M user_profile_name execution_role =
     call (cli_create_user_profile M (domain_id M) user_profile_name execution_role)
       (CreateUserProfile user_profile_name execution_role)"

section \<open>delete_user_profile\<close>

text \<open>
  The body of the \<^verbatim>\<open>try\<close> of lines 72-75, for one app: the status query, and the
  delete request unless the status is \<^verbatim>\<open>Deleted\<close> or \<^verbatim>\<open>Deleting\<close>.
\<close>

definition delete_apps_body ::
  "'w manager \<Rightarrow> string \<Rightarrow> app \<Rightarrow> 'w state \<Rightarrow> (exn + unit) \<times> 'w state" where
  "delete_apps_body M u a s =
     (case describe_app M u (AppName a) (AppType a) s of
        (Inl e, s1) \<Rightarrow> (Inl e, s1)
      | (Inr response, s1) \<Rightarrow>
          if Status response \<noteq> ''Deleted'' \<and> Status response \<noteq> ''Deleting''
          then (case delete_app M u (AppName a) (AppType a) s1 of
                  (Inl e, s2) \<Rightarrow> (Inl e, s2)
                | (Inr _, s2) \<Rightarrow> (Inr (), s2))
          else (Inr (), s1))"

text \<open>
  The first \<^verbatim>\<open>for\<close> loop (lines 71-80) with its two handlers. It ends in one of three
  ways: it runs through all apps, it executes \<^verbatim>\<open>return\<close> (on \<^verbatim>\<open>ResourceInUse\<close>), or
  an exception that no handler matches leaves it.
\<close>

datatype flow = Completed | Returned

fun delete_apps ::
  "'w manager \<Rightarrow> string \<Rightarrow> app list \<Rightarrow> 'w state \<Rightarrow> (exn + flow) \<times> 'w state" where
  "delete_apps M u [] s = (Inr Completed, s)"
| "delete_apps M u (a # as) s =
     (case delete_apps_body M u a s of
        (Inr _, s1) \<Rightarrow> delete_apps M u as s1
      | (Inl ResourceNotFound, s1) \<Rightarrow> delete_apps M u as s1
      | (Inl ResourceInUse, s1) \<Rightarrow> (Inr Returned, s1)
      | (Inl e, s1) \<Rightarrow> (Inl e, s1))"

text \<open>
  One pass of the inner \<^verbatim>\<open>for\<close> loop of the poll (lines 86-90): \<open>cnt\<close> is
  \<^verbatim>\<open>delete_cnt\<close>. Nothing catches an exception of \<^verbatim>\<open>describe_app\<close> here.
\<close>

fun poll_pass ::
  "'w manager \<Rightarrow> string \<Rightarrow> app list \<Rightarrow> nat \<Rightarrow> 'w state \<Rightarrow> (exn + nat) \<times> 'w state" where
  "poll_pass M u [] cnt s = (Inr cnt, s)"
| "poll_pass M u (a # as) cnt s =
     (case describe_app M u (AppName a) (AppType a) s of
        (Inl e, s1) \<Rightarrow> (Inl e, s1)
      | (Inr response, s1) \<Rightarrow>
          poll_pass M u as
            (if Status response = ''Deleted'' \<or> Status response = ''Failed''
             then cnt + 1 else cnt) s1)"

text \<open>
  The \<^verbatim>\<open>while delete_cnt < len(apps)\<close> loop (lines 84-93). The source gives it no
  bound, so it is a partial function: \<open>None\<close> is a loop that never ends.
  \<^verbatim>\<open>elapsed_secs\<close> is only logged; the \<open>Sleep\<close> events of the trace carry it.
\<close>

partial_function (option) poll_loop ::
  "'w manager \<Rightarrow> string \<Rightarrow> app list \<Rightarrow> nat \<Rightarrow> 'w state \<Rightarrow> ((exn + unit) \<times> 'w state) option" where
  "poll_loop M u apps delete_cnt s =
     (if delete_cnt < length apps
      then (case poll_pass M u apps 0 s of
              (Inl e, s1) \<Rightarrow> Some (Inl e, s1)
            | (Inr cnt, s1) \<Rightarrow> poll_loop M u apps cnt (sleep 5 s1))
      else Some (Inr (), s))"

declare poll_loop.simps [code]

text \<open>
  \<^verbatim>\<open>delete_user_profile\<close> returns \<^verbatim>\<open>None\<close> on its two early returns and the client's
  response at the end: a \<open>response option\<close>.
\<close>

definition delete_user_profile ::
  "'w manager \<Rightarrow> string \<Rightarrow> 'w state \<Rightarrow> ((exn + response option) \<times> 'w state) option" where
  "delete_user_profile M user_profile_name s =
     (case describe_user_profile M user_profile_name s of
        (Inl ResourceNotFound, s1) \<Rightarrow> Some (Inr None, s1)
      | (Inl e, s1) \<Rightarrow> Some (Inl e, s1)
      | (Inr _, s1) \<Rightarrow>
         (case list_apps M user_profile_name s1 of
            (Inl e, s2) \<Rightarrow> Some (Inl e, s2)
          | (Inr apps, s2) \<Rightarrow>
             (case delete_apps M user_profile_name apps s2 of
                (Inl e, s3) \<Rightarrow> Some (Inl e, s3)
              | (Inr Returned, s3) \<Rightarrow> Some (Inr None, s3)
              | (Inr Completed, s3) \<Rightarrow>
                 (case poll_loop M user_profile_name apps 0 s3 of
                    None \<Rightarrow> None
                  | Some (Inl e, s4) \<Rightarrow> Some (Inl e, s4)
                  | Some (Inr _, s4) \<Rightarrow>
                     (case call (cli_delete_user_profile M (domain_id M) user_profile_name)
                             (DeleteUserProfile user_profile_name) s4 of
                        (Inl e, s5) \<Rightarrow> Some (Inl e, s5)
                      | (Inr response, s5) \<Rightarrow> Some (Inr (Some response), s5))))))"

section \<open>recreate_all_user_profiles\<close>

text \<open>
  The test \<^verbatim>\<open>i['UserProfileName'] in self.list_user_profiles()\<close> compares a \<^verbatim>\<open>str\<close>
  with the elements of a list of \<^verbatim>\<open>dict\<close>s. Python's \<^verbatim>\<open>in\<close> on a list is equality
  with some element, and values of different types are unequal.
\<close>

datatype pyval = PStr string | PDict profile_summary

fun py_eq :: "pyval \<Rightarrow> pyval \<Rightarrow> bool" where
  "py_eq (PStr a) (PStr b) = (a = b)"
| "py_eq (PDict a) (PDict b) = (a = b)"
| "py_eq _ _ = False"

definition py_in :: "pyval \<Rightarrow> pyval list \<Rightarrow> bool" where
  "py_in x xs = list_ex (py_eq x) xs"

text \<open>The list comprehension of lines 209-210.\<close>

fun describe_all ::
  "'w manager \<Rightarrow> profile_summary list \<Rightarrow> 'w state \<Rightarrow> (exn + user_profile list) \<times> 'w state" where
  "describe_all M [] s = (Inr [], s)"
| "describe_all M (x # xs) s =
     (case describe_user_profile M (UserProfileName x) s of
        (Inl e, s1) \<Rightarrow> (Inl e, s1)
      | (Inr p, s1) \<Rightarrow>
         (case describe_all M xs s1 of
            (Inl e, s2) \<Rightarrow> (Inl e, s2)
          | (Inr ps, s2) \<Rightarrow> (Inr (p # ps), s2)))"

text \<open>
  The \<^verbatim>\<open>while ... else\<close> of lines 216-220: the body sleeps, and the \<^verbatim>\<open>else\<close> branch,
  run when the condition is false, sleeps once more.
\<close>

partial_function (option) wait_deleted ::
  "'w manager \<Rightarrow> string \<Rightarrow> 'w state \<Rightarrow> ((exn + unit) \<times> 'w state) option" where
  "wait_deleted M u s =
     (case list_user_profiles M s of
        (Inl e, s1) \<Rightarrow> Some (Inl e, s1)
      | (Inr ps, s1) \<Rightarrow>
          if py_in (PStr u) (map PDict ps)
          then wait_deleted M u (sleep 5 s1)
          else Some (Inr (), sleep 5 s1))"

declare wait_deleted.simps [code]

text \<open>
  The argument \<^verbatim>\<open>i['UserSettings']['ExecutionRole']\<close> of line 222: each subscript
  raises \<^verbatim>\<open>KeyError\<close> when the key is missing.
\<close>

definition execution_role :: "user_profile \<Rightarrow> exn + string" where
  "execution_role i =
     (case UserSettings i of
        None \<Rightarrow> Inl (KeyError ''UserSettings'')
      | Some settings \<Rightarrow>
         (case ExecutionRole settings of
            None \<Rightarrow> Inl (KeyError ''ExecutionRole'')
          | Some role \<Rightarrow> Inr role))"

text \<open>
  The \<^verbatim>\<open>for i in user_profiles\<close> loop (lines 213-223). The arguments of
  \<^verbatim>\<open>create_user_profile\<close> are evaluated after the wait and before the call.
\<close>

fun recreate_profiles ::
  "'w manager \<Rightarrow> user_profile list \<Rightarrow> 'w state \<Rightarrow> ((exn + unit) \<times> 'w state) option" where
  "recreate_profiles M [] s = Some (Inr (), s)"
| "recreate_profiles M (i # is) s =
     (case delete_user_profile M (UserProfileName i) s of
        None \<Rightarrow> None
      | Some (Inl e, s1) \<Rightarrow> Some (Inl e, s1)
      | Some (Inr _, s1) \<Rightarrow>
         (case wait_deleted M (UserProfileName i) s1 of
            None \<Rightarrow> None
          | Some (Inl e, s2) \<Rightarrow> Some (Inl e, s2)
          | Some (Inr _, s2) \<Rightarrow>
             (case execution_role i of
                Inl e \<Rightarrow> Some (Inl e, s2)
              | Inr role \<Rightarrow>
                 (case create_user_profile M (UserProfileName i) role s2 of
                    (Inl e, s3) \<Rightarrow> Some (Inl e, s3)
                  | (Inr _, s3) \<Rightarrow> recreate_profiles M is s3))))"

definition recreate_all_user_profiles ::
  "'w manager \<Rightarrow> 'w state \<Rightarrow> ((exn + unit) \<times> 'w state) option" where
  "recreate_all_user_profiles M s =
     (case list_user_profiles M s of
        (Inl e, s1) \<Rightarrow> Some (Inl e, s1)
      | (Inr xs, s1) \<Rightarrow>
         (case describe_all M xs s1 of
            (Inl e, s2) \<Rightarrow> Some (Inl e, s2)
          | (Inr user_profiles, s2) \<Rightarrow> recreate_profiles M user_profiles s2))"

section \<open>Scripted control planes\<close>

text \<open>
  A control plane whose answers are fixed in advance, for running the manager on concrete
  inputs. Its state counts the status queries (\<^verbatim>\<open>describe_app\<close> calls) answered so
  far; the answer to a status query depends on that count and on the app's name. The
  listing of profiles never changes: the directory still lists a profile after its
  delete was requested.
\<close>

record script =
  profiles :: "user_profile list"
  apps :: "app list"
  status_at :: "nat \<Rightarrow> string \<Rightarrow> exn + string"
  delete_app_outcome :: "string \<Rightarrow> exn + response"
  create_outcome :: "string \<Rightarrow> exn + response"

definition scripted :: "script \<Rightarrow> nat manager" where
  "scripted sc =
     \<lparr>domain_id = Some ''d-1'',
      cli_list_user_profiles =
        (\<lambda>d w. (Inr (map (\<lambda>p. \<lparr>UserProfileName = UserProfileName p\<rparr>) (profiles sc)), w)),
      cli_describe_user_profile =
        (\<lambda>d u w. (case find (\<lambda>p. UserProfileName p = u) (profiles sc) of
                      None \<Rightarrow> Inl ResourceNotFound
                    | Some p \<Rightarrow> Inr p, w)),
      cli_list_apps = (\<lambda>d u w. (Inr (apps sc), w)),
      cli_describe_app =
        (\<lambda>d u a t w. (case status_at sc w a of
                          Inl e \<Rightarrow> Inl e
                        | Inr st \<Rightarrow> Inr \<lparr>Status = st\<rparr>, Suc w)),
      cli_delete_app = (\<lambda>d u a t w. (delete_app_outcome sc a, w)),
      cli_create_user_profile = (\<lambda>d u r w. (create_outcome sc u, w)),
      cli_delete_user_profile = (\<lambda>d u w. (Inr [], w))\<rparr>"

definition start :: "nat state" where
  "start = \<lparr>world = 0, trace = []\<rparr>"

definition profile :: "string \<Rightarrow> string \<Rightarrow> user_profile" where
  "profile n r =
     \<lparr>UserProfileName = n, UserSettings = Some \<lparr>ExecutionRole = Some r\<rparr>\<rparr>"

definition jupyter :: "string \<Rightarrow> app" where
  "jupyter n = \<lparr>AppName = n, AppType = ''JupyterServer''\<rparr>"

text \<open>
  A profile with two apps. \<open>B\<close> is \<^verbatim>\<open>Deleted\<close> throughout; \<open>A\<close> is \<^verbatim>\<open>InService\<close> when
  the delete requests are made, \<^verbatim>\<open>Deleting\<close> on the first round of the poll and
  \<^verbatim>\<open>Failed\<close> on the second.
\<close>

definition failing_child :: script where
  "failing_child =
     \<lparr>profiles = [profile ''prof-1'' ''r1''],
      apps = [jupyter ''A'', jupyter ''B''],
      status_at = (\<lambda>k a. Inr (if a = ''B'' then ''Deleted''
                               else if k < 2 then ''InService''
                               else if k < 4 then ''Deleting'' else ''Failed'')),
      delete_app_outcome = (\<lambda>a. Inr []),
      create_outcome = (\<lambda>u. Inr [])\<rparr>"

definition failing_child_events :: "event list" where
  "failing_child_events =
     [DescribeUserProfile ''prof-1'' (Inr (profile ''prof-1'' ''r1'')),
      ListApps ''prof-1'' (Inr [jupyter ''A'', jupyter ''B'']),
      DescribeApp ''prof-1'' ''A'' ''JupyterServer'' (Inr \<lparr>Status = ''InService''\<rparr>),
      DeleteApp ''prof-1'' ''A'' ''JupyterServer'' (Inr []),
      DescribeApp ''prof-1'' ''B'' ''JupyterServer'' (Inr \<lparr>Status = ''Deleted''\<rparr>),
      DescribeApp ''prof-1'' ''A'' ''JupyterServer'' (Inr \<lparr>Status = ''Deleting''\<rparr>),
      DescribeApp ''prof-1'' ''B'' ''JupyterServer'' (Inr \<lparr>Status = ''Deleted''\<rparr>),
      Sleep 5,
      DescribeApp ''prof-1'' ''A'' ''JupyterServer'' (Inr \<lparr>Status = ''Failed''\<rparr>),
      DescribeApp ''prof-1'' ''B'' ''JupyterServer'' (Inr \<lparr>Status = ''Deleted''\<rparr>),
      Sleep 5,
      DeleteUserProfile ''prof-1'' (Inr [])]"

section \<open>Reading a trace\<close>

text \<open>
  The terminal statuses are \<^verbatim>\<open>Deleted\<close> and \<^verbatim>\<open>Failed\<close>. \<open>status_queries u as ds\<close> is
  one round of status queries for the profile \<open>u\<close>: one for each app of \<open>as\<close>, in
  order, answered by the descriptions \<open>ds\<close>.
\<close>

definition terminal :: "string \<Rightarrow> bool" where
  "terminal st \<longleftrightarrow> st = ''Deleted'' \<or> st = ''Failed''"

definition status_queries :: "string \<Rightarrow> app list \<Rightarrow> app_description list \<Rightarrow> event list" where
  "status_queries u as ds =
     map (\<lambda>(a, d). DescribeApp u (AppName a) (AppType a) (Inr d)) (zip as ds)"

fun is_parent_delete :: "event \<Rightarrow> bool" where
  "is_parent_delete (DeleteUserProfile _ _) = True"
| "is_parent_delete _ = False"

definition no_parent_delete :: "event list \<Rightarrow> bool" where
  "no_parent_delete evs = (\<not> list_ex is_parent_delete evs)"

text \<open>The events of the apps of a profile: status queries, delete requests, sleeps.\<close>

fun is_app_event :: "event \<Rightarrow> bool" where
  "is_app_event (DescribeApp _ _ _ _) = True"
| "is_app_event (DeleteApp _ _ _ _) = True"
| "is_app_event (Sleep _) = True"
| "is_app_event _ = False"

definition app_events :: "event list \<Rightarrow> bool" where
  "app_events evs = list_all is_app_event evs"

text \<open>
  What holds when the poll returns \<open>y\<close>, started with \<^verbatim>\<open>delete_cnt = cnt\<close> in the
  state \<open>s\<close>: its events are app events, and if it ran at all and returned
  normally, its last events are a full round of status queries, every answer terminal,
  and the sleep that follows the round.
\<close>

definition loop_post ::
  "string \<Rightarrow> app list \<Rightarrow> nat \<Rightarrow> 'w state \<Rightarrow> (exn + unit) \<times> 'w state \<Rightarrow> bool" where
  "loop_post u as cnt s y =
     (case y of (r, s') \<Rightarrow>
        (\<exists>new. trace s' = trace s @ new \<and> app_events new \<and>
            (cnt < length as \<longrightarrow> (\<exists>x. r = Inr x) \<longrightarrow>
               (\<exists>pre ds. new = pre @ status_queries u as ds @ [Sleep 5] \<and>
                  length ds = length as \<and> (\<forall>d\<in>set ds. terminal (Status d)))))
         \<and> (\<not> cnt < length as \<longrightarrow> s' = s \<and> r = Inr ()))"

text \<open>
  \<open>converges_within M u as k s\<close>: of the first \<open>k + 1\<close> rounds of the poll started in
  \<open>s\<close>, one raises or counts every app as terminal.
\<close>

fun converges_within :: "'w manager \<Rightarrow> string \<Rightarrow> app list \<Rightarrow> nat \<Rightarrow> 'w state \<Rightarrow> bool" where
  "converges_within M u as 0 s =
     (case poll_pass M u as 0 s of
        (Inl e, s1) \<Rightarrow> True
      | (Inr cnt, s1) \<Rightarrow> length as \<le> cnt)"
| "converges_within M u as (Suc k) s =
     (case poll_pass M u as 0 s of
        (Inl e, s1) \<Rightarrow> True
      | (Inr cnt, s1) \<Rightarrow> length as \<le> cnt \<or> converges_within M u as k (sleep 5 s1))"

text \<open>A profile whose one app answers \<^verbatim>\<open>InService\<close> to every status query.\<close>

definition stuck :: script where
  "stuck =
     \<lparr>profiles = [profile ''prof-1'' ''r1''],
      apps = [jupyter ''A''],
      status_at = (\<lambda>k a. Inr ''InService''),
      delete_app_outcome = (\<lambda>a. Inr []),
      create_outcome = (\<lambda>u. Inr [])\<rparr>"

text \<open>
  A profile whose one app is \<^verbatim>\<open>InService\<close> at the first status query and gone
  (\<^verbatim>\<open>ResourceNotFound\<close>) at every later one.
\<close>

definition vanishing :: script where
  "vanishing =
     \<lparr>profiles = [profile ''prof-1'' ''r1''],
      apps = [jupyter ''A''],
      status_at = (\<lambda>k a. if k = 0 then Inr ''InService'' else Inl ResourceNotFound),
      delete_app_outcome = (\<lambda>a. Inr []),
      create_outcome = (\<lambda>u. Inr [])\<rparr>"

text \<open>
  A profile with two apps in service, where the delete request for \<open>A\<close> is refused for
  lack of permission: \<open>A\<close> stays \<^verbatim>\<open>InService\<close>, \<open>B\<close> is \<^verbatim>\<open>Deleted\<close> from the third
  status query on.
\<close>

definition denied :: script where
  "denied =
     \<lparr>profiles = [profile ''prof-1'' ''r1''],
      apps = [jupyter ''A'', jupyter ''B''],
      status_at = (\<lambda>k a. Inr (if a = ''A'' then ''InService''
                               else if k < 2 then ''InService'' else ''Deleted'')),
      delete_app_outcome =
        (\<lambda>a. if a = ''A'' then Inl (ClientError ''AccessDeniedException'') else Inr []),
      create_outcome = (\<lambda>u. Inr [])\<rparr>"

text \<open>
  A profile without apps, and the two states the run goes through after its delete
  request: the directory still lists the profile.
\<close>

definition lingering :: script where
  "lingering =
     \<lparr>profiles = [profile ''prof-1'' ''r1''],
      apps = [],
      status_at = (\<lambda>k a. Inr ''Deleted''),
      delete_app_outcome = (\<lambda>a. Inr []),
      create_outcome = (\<lambda>u. Inr [])\<rparr>"

definition lingering_deleted :: "nat state" where
  "lingering_deleted =
     \<lparr>world = 0,
      trace = [DescribeUserProfile ''prof-1'' (Inr (profile ''prof-1'' ''r1'')),
               ListApps ''prof-1'' (Inr []),
               DeleteUserProfile ''prof-1'' (Inr [])]\<rparr>"

definition lingering_listed :: "nat state" where
  "lingering_listed =
     \<lparr>world = 0,
      trace = [DescribeUserProfile ''prof-1'' (Inr (profile ''prof-1'' ''r1'')),
               ListApps ''prof-1'' (Inr []),
               DeleteUserProfile ''prof-1'' (Inr []),
               ListUserProfiles (Inr [\<lparr>UserProfileName = ''prof-1''\<rparr>])]\<rparr>"

text \<open>
  Reading the first loop's events: the status answers, each with the app it is about,
  and the apps a delete was requested for. An answer calls for a delete request when it
  is a status other than \<^verbatim>\<open>Deleted\<close> and \<^verbatim>\<open>Deleting\<close> (line 74).
\<close>

definition child :: "string \<Rightarrow> app \<Rightarrow> string \<times> string \<times> string" where
  "child u a = (u, AppName a, AppType a)"

fun status_answers ::
  "event list \<Rightarrow> ((string \<times> string \<times> string) \<times> (exn + app_description)) list" where
  "status_answers [] = []"
| "status_answers (DescribeApp u a t out # evs) = ((u, a, t), out) # status_answers evs"
| "status_answers (e # evs) = status_answers evs"

fun delete_requests :: "event list \<Rightarrow> (string \<times> string \<times> string) list" where
  "delete_requests [] = []"
| "delete_requests (DeleteApp u a t out # evs) = (u, a, t) # delete_requests evs"
| "delete_requests (e # evs) = delete_requests evs"

definition needs_delete :: "exn + app_description \<Rightarrow> bool" where
  "needs_delete out =
     (case out of
        Inl e \<Rightarrow> False
      | Inr response \<Rightarrow> Status response \<noteq> ''Deleted'' \<and> Status response \<noteq> ''Deleting'')"

text \<open>A profile whose one app is \<^verbatim>\<open>Failed\<close> from the start.\<close>

definition already_failed :: script where
  "already_failed =
     \<lparr>profiles = [profile ''prof-1'' ''r1''],
      apps = [jupyter ''A''],
      status_at = (\<lambda>k a. Inr ''Failed''),
      delete_app_outcome = (\<lambda>a. Inr []),
      create_outcome = (\<lambda>u. Inr [])\<rparr>"

text \<open>
  A profile with two apps: \<open>A\<close> is \<^verbatim>\<open>Deleted\<close> throughout, \<open>B\<close> is \<^verbatim>\<open>InService\<close> for the
  first four status queries and \<^verbatim>\<open>Deleted\<close> from then on.
\<close>

definition late_sibling :: script where
  "late_sibling =
     \<lparr>profiles = [profile ''prof-1'' ''r1''],
      apps = [jupyter ''A'', jupyter ''B''],
      status_at = (\<lambda>k a. Inr (if a = ''A'' then ''Deleted''
                               else if k < 4 then ''InService'' else ''Deleted'')),
      delete_app_outcome = (\<lambda>a. Inr []),
      create_outcome = (\<lambda>u. Inr [])\<rparr>"


text \<open>A profile whose one app answers \<^verbatim>\<open>ResourceInUse\<close> to the status query.\<close>

definition in_use :: script where
  "in_use =
     \<lparr>profiles = [profile ''prof-1'' ''r1''],
      apps = [jupyter ''A''],
      status_at = (\<lambda>k a. Inl ResourceInUse),
      delete_app_outcome = (\<lambda>a. Inr []),
      create_outcome = (\<lambda>u. Inr [])\<rparr>"

text \<open>
  One round of status queries without the counting: the answers of the apps, in listing
  order, or the first exception. \<open>after_rounds M u as k s\<close> is the state after \<open>k\<close>
  rounds, each followed by its sleep, that ran through with some app not yet terminal.
  \<open>before_poll\<close> is the part of \<^verbatim>\<open>delete_user_profile\<close> before the poll (lines 63-81):
  the listed apps and the state in which the poll starts, when the run gets there.
\<close>

fun query_round ::
  "'w manager \<Rightarrow> string \<Rightarrow> app list \<Rightarrow> 'w state \<Rightarrow> (exn + app_description list) \<times> 'w state" where
  "query_round M u [] s = (Inr [], s)"
| "query_round M u (a # as) s =
     (case describe_app M u (AppName a) (AppType a) s of
        (Inl e, s1) \<Rightarrow> (Inl e, s1)
      | (Inr d, s1) \<Rightarrow>
         (case query_round M u as s1 of
            (Inl e, s2) \<Rightarrow> (Inl e, s2)
          | (Inr ds, s2) \<Rightarrow> (Inr (d # ds), s2)))"

fun after_rounds :: "'w manager \<Rightarrow> string \<Rightarrow> app list \<Rightarrow> nat \<Rightarrow> 'w state \<Rightarrow> 'w state option" where
  "after_rounds M u as 0 s = Some s"
| "after_rounds M u as (Suc k) s =
     (case query_round M u as s of
        (Inl e, s1) \<Rightarrow> None
      | (Inr ds, s1) \<Rightarrow>
          if list_all (\<lambda>d. terminal (Status d)) ds then None
          else after_rounds M u as k (sleep 5 s1))"

definition before_poll :: "'w manager \<Rightarrow> string \<Rightarrow> 'w state \<Rightarrow> (app list \<times> 'w state) option" where
  "before_poll M u s =
     (case describe_user_profile M u s of
        (Inl e, s1) \<Rightarrow> None
      | (Inr _, s1) \<Rightarrow>
         (case list_apps M u s1 of
            (Inl e, s2) \<Rightarrow> None
          | (Inr listed, s2) \<Rightarrow>
             (case delete_apps M u listed s2 of
                (Inl e, s3) \<Rightarrow> None
              | (Inr Returned, s3) \<Rightarrow> None
              | (Inr Completed, s3) \<Rightarrow> Some (listed, s3))))"

text \<open>
  The apps of \<open>denied\<close> listed the other way round, so that the refused delete
  request is the second, and the events of the run up to the refused request.
\<close>

definition denied_second :: script where
  "denied_second = denied\<lparr>apps := [jupyter ''B'', jupyter ''A'']\<rparr>"

definition refused_events :: "event list" where
  "refused_events =
     [DescribeUserProfile ''prof-1'' (Inr (profile ''prof-1'' ''r1'')),
      ListApps ''prof-1'' (Inr [jupyter ''B'', jupyter ''A'']),
      DescribeApp ''prof-1'' ''B'' ''JupyterServer'' (Inr \<lparr>Status = ''InService''\<rparr>),
      DeleteApp ''prof-1'' ''B'' ''JupyterServer'' (Inr []),
      DescribeApp ''prof-1'' ''A'' ''JupyterServer'' (Inr \<lparr>Status = ''InService''\<rparr>),
      DeleteApp ''prof-1'' ''A'' ''JupyterServer''
        (Inl (ClientError ''AccessDeniedException''))]"

text \<open>A profile whose settings hold no execution role.\<close>

definition roleless :: script where
  "roleless =
     \<lparr>profiles = [\<lparr>UserProfileName = ''prof-1'',
                    UserSettings = Some \<lparr>ExecutionRole = None\<rparr>\<rparr>],
      apps = [],
      status_at = (\<lambda>k a. Inr ''Deleted''),
      delete_app_outcome = (\<lambda>a. Inr []),
      create_outcome = (\<lambda>u. Inr [])\<rparr>"







section \<open>Traces of the wrappers and of the two loops of delete_user_profile\<close>

lemma no_parent_delete_simps [simp]:
  "no_parent_delete []"
  "no_parent_delete (e # evs) \<longleftrightarrow> \<not> is_parent_delete e \<and> no_parent_delete evs"
  "no_parent_delete (xs @ ys) \<longleftrightarrow> no_parent_delete xs \<and> no_parent_delete ys"
  by (auto simp: no_parent_delete_def)

lemma app_events_simps [simp]:
  "app_events []"
  "app_events (e # evs) \<longleftrightarrow> is_app_event e \<and> app_events evs"
  "app_events (xs @ ys) \<longleftrightarrow> app_events xs \<and> app_events ys"
  by (auto simp: app_events_def)

lemma app_events_status_queries [simp]: "app_events (status_queries u as ds)"
  by (auto simp: app_events_def status_queries_def list_all_iff)

lemma app_events_no_parent_delete: "app_events evs \<Longrightarrow> no_parent_delete evs"
proof (induction evs)
  case Nil
  then show ?case by simp
next
  case (Cons e evs)
  then show ?case by (cases e) simp_all
qed

lemma call_eq:
  "call f ev s = (r, s') \<longleftrightarrow>
     (\<exists>w'. f (world s) = (r, w') \<and> s' = \<lparr>world = w', trace = trace s @ [ev r]\<rparr>)"
  by (auto simp: call_def split: prod.splits)

lemma describe_app_trace:
  "describe_app M u a t s = (r, s') \<Longrightarrow> trace s' = trace s @ [DescribeApp u a t r]"
  by (auto simp: describe_app_def call_eq)

lemma delete_app_trace:
  "delete_app M u a t s = (r, s') \<Longrightarrow>
     \<exists>out. trace s' = trace s @ [DeleteApp u a t out] \<and> (\<exists>x. r = Inr x)"
  by (auto simp: delete_app_def call_def split: prod.splits sum.splits)

lemma poll_pass_shape:
  "poll_pass M u as cnt s = (Inr n, s') \<Longrightarrow>
     \<exists>ds. length ds = length as \<and> trace s' = trace s @ status_queries u as ds \<and>
          n = cnt + length (filter (\<lambda>d. terminal (Status d)) ds)"
proof (induction as arbitrary: cnt s)
  case Nil
  then show ?case by (simp add: status_queries_def)
next
  case (Cons a as)
  obtain r s1 where d: "describe_app M u (AppName a) (AppType a) s = (r, s1)"
    by fastforce
  with Cons.prems obtain resp where r: "r = Inr resp"
    and rest: "poll_pass M u as
                 (if Status resp = ''Deleted'' \<or> Status resp = ''Failed'' then cnt + 1 else cnt) s1
               = (Inr n, s')"
    by (cases r) auto
  from Cons.IH [OF rest] obtain ds where ds: "length ds = length as"
    "trace s' = trace s1 @ status_queries u as ds"
    "n = (if Status resp = ''Deleted'' \<or> Status resp = ''Failed'' then cnt + 1 else cnt)
           + length (filter (\<lambda>d. terminal (Status d)) ds)"
    by blast
  from d r have t1: "trace s1 = trace s @ [DescribeApp u (AppName a) (AppType a) (Inr resp)]"
    by (simp add: describe_app_trace)
  show ?case
    by (rule exI [of _ "resp # ds"]) (use ds t1 in \<open>simp add: status_queries_def terminal_def\<close>)
qed

lemma poll_pass_events:
  "poll_pass M u as cnt s = (r, s') \<Longrightarrow>
     \<exists>new. trace s' = trace s @ new \<and> app_events new"
proof (induction as arbitrary: cnt s)
  case Nil
  then show ?case by simp
next
  case (Cons a as)
  obtain r1 s1 where d: "describe_app M u (AppName a) (AppType a) s = (r1, s1)"
    by fastforce
  then have t1: "trace s1 = trace s @ [DescribeApp u (AppName a) (AppType a) r1]"
    by (rule describe_app_trace)
  show ?case
  proof (cases r1)
    case (Inl e)
    with Cons.prems d have "s' = s1" by simp
    with t1 show ?thesis by simp
  next
    case (Inr resp)
    with Cons.prems d have "poll_pass M u as
        (if Status resp = ''Deleted'' \<or> Status resp = ''Failed'' then cnt + 1 else cnt) s1 = (r, s')"
      by simp
    from Cons.IH [OF this] obtain new where "trace s' = trace s1 @ new" "app_events new"
      by blast
    with t1 show ?thesis by simp
  qed
qed

lemma all_counted:
  "length xs \<le> length (filter P xs) \<Longrightarrow> \<forall>x\<in>set xs. P x"
  by (metis length_filter_less not_le)

lemma poll_loop_post:
  assumes "poll_loop M u as cnt s = Some y"
  shows "loop_post u as cnt s y"
proof (rule poll_loop.raw_induct [where P = "\<lambda>M u as cnt s y. loop_post u as cnt s y", OF _ assms])
  fix loop :: "'a manager \<Rightarrow> string \<Rightarrow> app list \<Rightarrow> nat \<Rightarrow> 'a state \<Rightarrow> ((exn + unit) \<times> 'a state) option"
  fix M u as cnt s y
  assume IH: "\<And>M u as cnt s y. loop M u as cnt s = Some y \<Longrightarrow> loop_post u as cnt s y"
  assume body: "(if cnt < length as
      then case poll_pass M u as 0 s of
             (Inl e, s1) \<Rightarrow> Some (Inl e, s1)
           | (Inr cnt, s1) \<Rightarrow> loop M u as cnt (sleep 5 s1)
      else Some (Inr (), s)) = Some y"
  obtain r s' where y: "y = (r, s')" by (cases y)
  show "loop_post u as cnt s y"
  proof (cases "cnt < length as")
    case False
    with body y show ?thesis by (auto simp: loop_post_def)
  next
    case True
    obtain r1 s1 where p: "poll_pass M u as 0 s = (r1, s1)" by fastforce
    from poll_pass_events [OF p] obtain ev1 where ev1: "trace s1 = trace s @ ev1"
      "app_events ev1" by blast
    show ?thesis
    proof (cases r1)
      case (Inl e)
      with body True p y have "r = Inl e" "s' = s1" by simp_all
      with ev1 True y show ?thesis by (simp add: loop_post_def)
    next
      case (Inr n)
      with body True p y have rec: "loop M u as n (sleep 5 s1) = Some (r, s')" by simp
      from IH [OF rec] obtain new where new: "trace s' = trace (sleep 5 s1) @ new"
        "app_events new"
        "n < length as \<longrightarrow> (\<exists>x. r = Inr x) \<longrightarrow>
           (\<exists>pre ds. new = pre @ status_queries u as ds @ [Sleep 5] \<and>
              length ds = length as \<and> (\<forall>d\<in>set ds. terminal (Status d)))"
        and stop: "\<not> n < length as \<longrightarrow> s' = sleep 5 s1 \<and> r = Inr ()"
        unfolding loop_post_def by auto
      from p Inr poll_pass_shape [of M u as 0 s n s1] obtain ds where ds:
        "length ds = length as" "trace s1 = trace s @ status_queries u as ds"
        "n = length (filter (\<lambda>d. terminal (Status d)) ds)" by auto
      have tr: "trace s' = trace s @ (status_queries u as ds @ [Sleep 5] @ new)"
        using new(1) ds(2) by (simp add: sleep_def)
      have npd: "app_events (status_queries u as ds @ [Sleep 5] @ new)"
        using new(2) by simp
      have shape: "\<exists>pre ds'. status_queries u as ds @ [Sleep 5] @ new
                      = pre @ status_queries u as ds' @ [Sleep 5] \<and>
                    length ds' = length as \<and> (\<forall>d\<in>set ds'. terminal (Status d))"
        if "\<exists>x. r = Inr x"
      proof (cases "n < length as")
        case True
        with new(3) that obtain pre ds' where "new = pre @ status_queries u as ds' @ [Sleep 5]"
          "length ds' = length as" "\<forall>d\<in>set ds'. terminal (Status d)" by blast
        then show ?thesis
          by (intro exI [of _ "status_queries u as ds @ [Sleep 5] @ pre"] exI [of _ ds']) simp
      next
        case False
        with stop have "s' = sleep 5 s1" by simp
        with new(1) have "new = []" by simp
        moreover from False ds have "\<forall>d\<in>set ds. terminal (Status d)"
          by (intro all_counted) simp
        ultimately show ?thesis using ds(1)
          by (intro exI [of _ "[]"] exI [of _ ds]) simp
      qed
      have "\<exists>new. trace s' = trace s @ new \<and> app_events new \<and>
            (cnt < length as \<longrightarrow> (\<exists>x. r = Inr x) \<longrightarrow>
               (\<exists>pre ds. new = pre @ status_queries u as ds @ [Sleep 5] \<and>
                  length ds = length as \<and> (\<forall>d\<in>set ds. terminal (Status d))))"
        using tr npd shape
        by (intro exI [of _ "status_queries u as ds @ [Sleep 5] @ new"]) simp
      with True y show ?thesis by (simp add: loop_post_def)
    qed
  qed
qed

lemma describe_user_profile_trace:
  "describe_user_profile M u s = (r, s') \<Longrightarrow> trace s' = trace s @ [DescribeUserProfile u r]"
  by (auto simp: describe_user_profile_def call_eq)

lemma list_apps_trace:
  "list_apps M u s = (r, s') \<Longrightarrow> trace s' = trace s @ [ListApps u r]"
  by (auto simp: list_apps_def call_eq)

lemma delete_apps_body_events:
  assumes "delete_apps_body M u a s = (r, s')"
  shows "\<exists>new. trace s' = trace s @ new \<and> app_events new"
proof -
  obtain r1 s1 where d: "describe_app M u (AppName a) (AppType a) s = (r1, s1)"
    by fastforce
  then have t1: "trace s1 = trace s @ [DescribeApp u (AppName a) (AppType a) r1]"
    by (rule describe_app_trace)
  obtain r2 s2 where e: "delete_app M u (AppName a) (AppType a) s1 = (r2, s2)"
    by fastforce
  from delete_app_trace [OF e] obtain out where
    t2: "trace s2 = trace s1 @ [DeleteApp u (AppName a) (AppType a) out]" by blast
  from assms d e have "s' = s1 \<or> s' = s2"
    by (auto simp: delete_apps_body_def split: sum.splits if_splits)
  with t1 t2 show ?thesis by auto
qed

lemma delete_apps_events:
  "delete_apps M u as s = (r, s') \<Longrightarrow> \<exists>new. trace s' = trace s @ new \<and> app_events new"
proof (induction as arbitrary: s)
  case Nil
  then show ?case by simp
next
  case (Cons a as)
  obtain r1 s1 where b: "delete_apps_body M u a s = (r1, s1)" by fastforce
  from delete_apps_body_events [OF b] obtain ev1 where
    ev1: "trace s1 = trace s @ ev1" "app_events ev1" by blast
  from Cons.prems b have "delete_apps M u as s1 = (r, s') \<or> s' = s1"
    by (auto split: sum.splits exn.splits)
  then show ?case
  proof
    assume "delete_apps M u as s1 = (r, s')"
    from Cons.IH [OF this] obtain new where "trace s' = trace s1 @ new" "app_events new"
      by blast
    with ev1 show ?thesis by simp
  next
    assume "s' = s1"
    with ev1 show ?thesis by simp
  qed
qed

lemma no_parent_delete_iff: "no_parent_delete evs \<longleftrightarrow> \<not> list_ex is_parent_delete evs"
  by (simp add: no_parent_delete_def)

lemmas run_defs =
  delete_user_profile_def describe_user_profile_def list_user_profiles_def list_apps_def
  describe_app_def delete_app_def delete_apps_body_def create_user_profile_def
  recreate_all_user_profiles_def call_def scripted_def start_def profile_def jupyter_def
  poll_loop.simps wait_deleted.simps sleep_def py_in_def execution_role_def

section \<open>The poll: when it ends\<close>

lemma poll_loop_done:
  "\<not> cnt < length as \<Longrightarrow> poll_loop M u as cnt s = Some (Inr (), s)"
  by (subst poll_loop.simps) simp

lemma poll_loop_step:
  "cnt < length as \<Longrightarrow>
     poll_loop M u as cnt s =
       (case poll_pass M u as 0 s of
          (Inl e, s1) \<Rightarrow> Some (Inl e, s1)
        | (Inr n, s1) \<Rightarrow> poll_loop M u as n (sleep 5 s1))"
  by (subst poll_loop.simps) simp

lemma converges_poll_loop:
  "converges_within M u as k s \<Longrightarrow> cnt < length as \<Longrightarrow> \<exists>y. poll_loop M u as cnt s = Some y"
proof (induction k arbitrary: cnt s)
  case 0
  obtain r1 s1 where p: "poll_pass M u as 0 s = (r1, s1)" by fastforce
  show ?case
  proof (cases r1)
    case (Inl e)
    with p 0 show ?thesis by (simp add: poll_loop_step)
  next
    case (Inr n)
    with p 0 have "\<not> n < length as" by simp
    then have "poll_loop M u as n (sleep 5 s1) = Some (Inr (), sleep 5 s1)"
      by (rule poll_loop_done)
    with p Inr 0 show ?thesis by (simp add: poll_loop_step)
  qed
next
  case (Suc k)
  obtain r1 s1 where p: "poll_pass M u as 0 s = (r1, s1)" by fastforce
  show ?case
  proof (cases r1)
    case (Inl e)
    with p Suc.prems show ?thesis by (simp add: poll_loop_step)
  next
    case (Inr n)
    have "\<exists>y. poll_loop M u as n (sleep 5 s1) = Some y"
    proof (cases "n < length as")
      case True
      with p Inr Suc.prems have "converges_within M u as k (sleep 5 s1)" by simp
      from Suc.IH [OF this True] show ?thesis .
    next
      case False
      then show ?thesis by (simp add: poll_loop_done)
    qed
    with p Inr Suc.prems show ?thesis by (simp add: poll_loop_step)
  qed
qed

lemma poll_loop_converges:
  assumes "poll_loop M u as cnt s = Some y"
  shows "cnt < length as \<longrightarrow> (\<exists>k. converges_within M u as k s)"
proof (rule poll_loop.raw_induct
    [where P = "\<lambda>M u as cnt s y. cnt < length as \<longrightarrow> (\<exists>k. converges_within M u as k s)",
     OF _ assms])
  fix loop :: "'a manager \<Rightarrow> string \<Rightarrow> app list \<Rightarrow> nat \<Rightarrow> 'a state \<Rightarrow> ((exn + unit) \<times> 'a state) option"
  fix M u as cnt s y
  assume IH: "\<And>M u as cnt s y. loop M u as cnt s = Some y \<Longrightarrow>
                cnt < length as \<longrightarrow> (\<exists>k. converges_within M u as k s)"
  assume body: "(if cnt < length as
      then case poll_pass M u as 0 s of
             (Inl e, s1) \<Rightarrow> Some (Inl e, s1)
           | (Inr cnt, s1) \<Rightarrow> loop M u as cnt (sleep 5 s1)
      else Some (Inr (), s)) = Some y"
  show "cnt < length as \<longrightarrow> (\<exists>k. converges_within M u as k s)"
  proof
    assume lt: "cnt < length as"
    obtain r1 s1 where p: "poll_pass M u as 0 s = (r1, s1)" by fastforce
    show "\<exists>k. converges_within M u as k s"
    proof (cases r1)
      case (Inl e)
      with p have "converges_within M u as 0 s" by simp
      then show ?thesis ..
    next
      case (Inr n)
      show ?thesis
      proof (cases "n < length as")
        case False
        with p Inr have "converges_within M u as 0 s" by simp
        then show ?thesis ..
      next
        case True
        from body lt p Inr have "loop M u as n (sleep 5 s1) = Some y" by simp
        from IH [OF this] True obtain k where "converges_within M u as k (sleep 5 s1)" by blast
        with p Inr have "converges_within M u as (Suc k) s" by simp
        then show ?thesis ..
      qed
    qed
  qed
qed

lemma stuck_never_converges:
  "\<not> converges_within (scripted stuck) u [jupyter ''A''] k s"
  by (induction k arbitrary: s) (simp_all add: stuck_def scripted_def describe_app_def call_def)

lemma stuck_poll_loop: "poll_loop (scripted stuck) u [jupyter ''A''] 0 s = None"
proof (cases "poll_loop (scripted stuck) u [jupyter ''A''] 0 s")
  case None
  then show ?thesis .
next
  case (Some y)
  from poll_loop_converges [OF Some] stuck_never_converges show ?thesis by auto
qed

text \<open>
  C2, as the code has it. The \<^verbatim>\<open>while\<close> loop has no tick bound and reports no timeout.
  Entered with \<^verbatim>\<open>delete_cnt < len(apps)\<close>, it returns exactly when some round of status
  queries counts every listed app as \<^verbatim>\<open>Deleted\<close> or \<^verbatim>\<open>Failed\<close>, or a status query
  raises; otherwise it runs forever.
\<close>

theorem poll_loop_returns_iff_converges:
  assumes "cnt < length as"
  shows "(\<exists>y. poll_loop M u as cnt s = Some y) \<longleftrightarrow> (\<exists>k. converges_within M u as k s)"
  using assms converges_poll_loop poll_loop_converges by blast

theorem poll_loop_returns_iff_converges_witness:
  "(0::nat) < length [jupyter ''A'', jupyter ''B''] \<and>
   converges_within (scripted failing_child) ''prof-1'' [jupyter ''A'', jupyter ''B''] 1
     \<lparr>world = 2, trace = []\<rparr> \<and>
   (\<exists>y. poll_loop (scripted failing_child) ''prof-1'' [jupyter ''A'', jupyter ''B''] 0
           \<lparr>world = 2, trace = []\<rparr> = Some y)"
proof -
  have h: "(0::nat) < length [jupyter ''A'', jupyter ''B'']" by simp
  have c: "converges_within (scripted failing_child) ''prof-1'' [jupyter ''A'', jupyter ''B''] 1
     \<lparr>world = 2, trace = []\<rparr>"
    by (simp add: run_defs failing_child_def)
  from poll_loop_returns_iff_converges [OF h] c h show ?thesis by blast
qed

text \<open>
  The claim C2 as written fails: with an app that answers \<^verbatim>\<open>InService\<close> to every
  status query, \<^verbatim>\<open>delete_user_profile\<close> does not return.
\<close>

theorem poll_never_ends_counterexample:
  "delete_user_profile (scripted stuck) ''prof-1'' start = None"
proof -
  let ?s1 = "\<lparr>world = 0 :: nat,
               trace = [DescribeUserProfile ''prof-1'' (Inr (profile ''prof-1'' ''r1''))]\<rparr>"
  let ?s2 = "\<lparr>world = 0 :: nat,
               trace = [DescribeUserProfile ''prof-1'' (Inr (profile ''prof-1'' ''r1'')),
                        ListApps ''prof-1'' (Inr [jupyter ''A''])]\<rparr>"
  let ?s3 = "\<lparr>world = 1 :: nat,
               trace = [DescribeUserProfile ''prof-1'' (Inr (profile ''prof-1'' ''r1'')),
                        ListApps ''prof-1'' (Inr [jupyter ''A'']),
                        DescribeApp ''prof-1'' ''A'' ''JupyterServer'' (Inr \<lparr>Status = ''InService''\<rparr>),
                        DeleteApp ''prof-1'' ''A'' ''JupyterServer'' (Inr [])]\<rparr>"
  have d: "describe_user_profile (scripted stuck) ''prof-1'' start
             = (Inr (profile ''prof-1'' ''r1''), ?s1)"
    by (simp add: describe_user_profile_def call_def scripted_def stuck_def start_def profile_def)
  have l: "list_apps (scripted stuck) ''prof-1'' ?s1 = (Inr [jupyter ''A''], ?s2)"
    by (simp add: list_apps_def call_def scripted_def stuck_def)
  have da: "delete_apps (scripted stuck) ''prof-1'' [jupyter ''A''] ?s2 = (Inr Completed, ?s3)"
    by (simp add: delete_apps_body_def describe_app_def delete_app_def call_def scripted_def
        stuck_def jupyter_def)
  show ?thesis
    by (simp only: delete_user_profile_def d l da stuck_poll_loop
        prod.case sum.case flow.case option.case)
qed

section \<open>Teardown: the parent is deleted last\<close>

lemma poll_pass_query_round:
  "poll_pass M u as cnt s =
     (case query_round M u as s of
        (Inl e, s1) \<Rightarrow> (Inl e, s1)
      | (Inr ds, s1) \<Rightarrow> (Inr (cnt + length (filter (\<lambda>d. terminal (Status d)) ds)), s1))"
proof (induction as arbitrary: cnt s)
  case Nil
  then show ?case by simp
next
  case (Cons a as)
  obtain r1 s1 where d: "describe_app M u (AppName a) (AppType a) s = (r1, s1)" by fastforce
  show ?case
  proof (cases r1)
    case (Inl e)
    with d show ?thesis by simp
  next
    case (Inr resp)
    obtain r2 s2 where q: "query_round M u as s1 = (r2, s2)" by fastforce
    show ?thesis
      by (cases r2) (simp_all add: d Inr q Cons.IH terminal_def)
  qed
qed

lemma query_round_length:
  "query_round M u as s = (Inr ds, s') \<Longrightarrow> length ds = length as"
  by (induction as arbitrary: s ds) (auto split: prod.splits sum.splits)

lemma count_all: "list_all P xs \<Longrightarrow> length (filter P xs) = length xs"
  by (induction xs) simp_all

lemma count_some: "\<not> list_all P xs \<Longrightarrow> length (filter P xs) < length xs"
  by (induction xs) (auto simp: less_Suc_eq_le)

lemma poll_loop_after_rounds:
  assumes "after_rounds M u as k s = Some sk"
    and "query_round M u as sk = (Inr ds, s4)"
    and "list_all (\<lambda>d. terminal (Status d)) ds"
    and "cnt < length as"
  shows "poll_loop M u as cnt s = Some (Inr (), sleep 5 s4)"
  using assms
proof (induction k arbitrary: s cnt)
  case 0
  then have sk: "sk = s" by simp
  from 0 have len: "length ds = length as" by (auto dest: query_round_length)
  from 0 sk len have "poll_pass M u as 0 s = (Inr (length as), s4)"
    by (simp add: poll_pass_query_round count_all)
  with 0(4) show ?case
    by (simp add: poll_loop_step poll_loop_done)
next
  case (Suc k)
  from Suc.prems(1) obtain ds0 s1 where q: "query_round M u as s = (Inr ds0, s1)"
    and nt: "\<not> list_all (\<lambda>d. terminal (Status d)) ds0"
    and rest: "after_rounds M u as k (sleep 5 s1) = Some sk"
    by (auto split: prod.splits sum.splits if_splits)
  from q have len: "length ds0 = length as" by (rule query_round_length)
  let ?n = "length (filter (\<lambda>d. terminal (Status d)) ds0)"
  from nt len have n: "?n < length as" by (auto dest: count_some)
  from q have "poll_pass M u as 0 s = (Inr ?n, s1)"
    by (simp add: poll_pass_query_round)
  with Suc.prems(4) have "poll_loop M u as cnt s = poll_loop M u as ?n (sleep 5 s1)"
    by (simp add: poll_loop_step)
  also from Suc.IH [OF rest Suc.prems(2) Suc.prems(3) n]
  have "poll_loop M u as ?n (sleep 5 s1) = Some (Inr (), sleep 5 s4)" .
  finally show ?case .
qed

lemma after_rounds_Nil: "after_rounds M u [] k s = Some sk \<Longrightarrow> k = 0 \<and> sk = s"
  by (cases k) simp_all

lemma parent_delete_when_all_terminal:
  assumes bp: "before_poll M u s = Some (as, s3)"
    and ar: "after_rounds M u as k s3 = Some sk"
    and q: "query_round M u as sk = (Inr ds, s4)"
    and fin: "list_all (\<lambda>d. terminal (Status d)) ds"
  shows "\<exists>out s5.
           call (cli_delete_user_profile M (domain_id M) u) (DeleteUserProfile u)
             (if as = [] then s4 else sleep 5 s4) = (out, s5) \<and>
           delete_user_profile M u s =
             Some (case out of Inl e \<Rightarrow> Inl e | Inr response \<Rightarrow> Inr (Some response), s5) \<and>
           trace s5 = trace s4 @ (if as = [] then [] else [Sleep 5]) @ [DeleteUserProfile u out]"
proof -
  from bp obtain p s1 s2 where d: "describe_user_profile M u s = (Inr p, s1)"
    and l: "list_apps M u s1 = (Inr as, s2)"
    and da: "delete_apps M u as s2 = (Inr Completed, s3)"
    by (auto simp: before_poll_def split: prod.splits sum.splits flow.splits)
  let ?s = "if as = [] then s4 else sleep 5 s4"
  have pl: "poll_loop M u as 0 s3 = Some (Inr (), ?s)"
  proof (cases "as = []")
    case True
    with ar have "sk = s3" by (auto dest: after_rounds_Nil)
    with q True have "s4 = s3" by simp
    with True show ?thesis by (simp add: poll_loop_done)
  next
    case False
    then have "0 < length as" by simp
    from poll_loop_after_rounds [OF ar q fin this] False show ?thesis by simp
  qed
  obtain out s5 where c: "call (cli_delete_user_profile M (domain_id M) u)
      (DeleteUserProfile u) ?s = (out, s5)" by fastforce
  then have t5: "trace s5 = trace ?s @ [DeleteUserProfile u out]"
    by (auto simp: call_eq)
  have run: "delete_user_profile M u s =
      Some (case out of Inl e \<Rightarrow> Inl e | Inr response \<Rightarrow> Inr (Some response), s5)"
    by (simp only: delete_user_profile_def d l da pl c prod.case sum.case flow.case option.case
        unit.case split: sum.splits) (simp split: sum.splits)
  from t5 have "trace s5 = trace s4 @ (if as = [] then [] else [Sleep 5]) @ [DeleteUserProfile u out]"
    by (simp add: sleep_def)
  with c run show ?thesis by blast
qed

lemma parent_delete_shape:
  assumes run: "delete_user_profile M u s = Some (r, s')"
    and evs: "trace s' = trace s @ evs"
    and pd: "list_ex is_parent_delete evs"
  shows "\<exists>apps ds pre out.
           evs = pre @ status_queries u apps ds @ (if apps = [] then [] else [Sleep 5])
                   @ [DeleteUserProfile u out] \<and>
           ListApps u (Inr apps) \<in> set pre \<and> no_parent_delete pre \<and>
           length ds = length apps \<and> (\<forall>d\<in>set ds. terminal (Status d))"
proof -
  obtain r1 s1 where d: "describe_user_profile M u s = (r1, s1)" by fastforce
  then have t1: "trace s1 = trace s @ [DescribeUserProfile u r1]"
    by (rule describe_user_profile_trace)
  show ?thesis
  proof (cases r1)
    case (Inl e)
    with run d have "s' = s1" by (auto simp: delete_user_profile_def split: exn.splits)
    with t1 evs have "evs = [DescribeUserProfile u r1]" by simp
    with pd show ?thesis by simp
  next
    case p: (Inr p)
    obtain r2 s2 where l: "list_apps M u s1 = (r2, s2)" by fastforce
    then have t2: "trace s2 = trace s1 @ [ListApps u r2]" by (rule list_apps_trace)
    show ?thesis
    proof (cases r2)
      case (Inl e)
      with run d p l have "s' = s2" by (simp add: delete_user_profile_def)
      with t1 t2 evs have "evs = [DescribeUserProfile u r1, ListApps u r2]" by simp
      with pd show ?thesis by simp
    next
      case apps: (Inr apps)
      obtain r3 s3 where da: "delete_apps M u apps s2 = (r3, s3)" by fastforce
      from delete_apps_events [OF da] obtain ev3 where
        t3: "trace s3 = trace s2 @ ev3" and a3: "app_events ev3" by blast
      from a3 have n3: "no_parent_delete ev3" by (rule app_events_no_parent_delete)
      have stop3: False if "s' = s3"
      proof -
        from that t1 t2 t3 evs have "evs = [DescribeUserProfile u r1, ListApps u r2] @ ev3"
          by simp
        with n3 pd show False by (simp add: no_parent_delete_iff)
      qed
      show ?thesis
      proof (cases r3)
        case (Inl e)
        with run d p l apps da have "s' = s3" by (simp add: delete_user_profile_def)
        with stop3 show ?thesis by simp
      next
        case fl: (Inr fl)
        show ?thesis
        proof (cases fl)
          case Returned
          with run d p l apps da fl have "s' = s3" by (simp add: delete_user_profile_def)
          with stop3 show ?thesis by simp
        next
          case Completed
          show ?thesis
          proof (cases "poll_loop M u apps 0 s3")
            case None
            with run d p l apps da fl Completed show ?thesis
              by (simp add: delete_user_profile_def)
          next
            case (Some y)
            obtain r4 s4 where y: "y = (r4, s4)" by (cases y)
            from poll_loop_post [OF Some] y obtain ev4 where
              t4: "trace s4 = trace s3 @ ev4" and a4: "app_events ev4"
              and last: "0 < length apps \<longrightarrow> (\<exists>x. r4 = Inr x) \<longrightarrow>
                 (\<exists>pre ds. ev4 = pre @ status_queries u apps ds @ [Sleep 5] \<and>
                    length ds = length apps \<and> (\<forall>d\<in>set ds. terminal (Status d)))"
              and none: "\<not> 0 < length apps \<longrightarrow> s4 = s3 \<and> r4 = Inr ()"
              unfolding loop_post_def by auto
            from a4 have n4: "no_parent_delete ev4" by (rule app_events_no_parent_delete)
            show ?thesis
            proof (cases r4)
              case (Inl e)
              with run d p l apps da fl Completed Some y have "s' = s4"
                by (simp add: delete_user_profile_def)
              with t1 t2 t3 t4 evs
              have "evs = [DescribeUserProfile u r1, ListApps u r2] @ ev3 @ ev4" by simp
              with n3 n4 pd show ?thesis by (simp add: no_parent_delete_iff)
            next
              case (Inr x)
              obtain r5 s5 where c: "call (cli_delete_user_profile M (domain_id M) u)
                  (DeleteUserProfile u) s4 = (r5, s5)" by fastforce
              then have t5: "trace s5 = trace s4 @ [DeleteUserProfile u r5]"
                by (auto simp: call_eq)
              from run d p l apps da fl Completed Some y Inr c have "s' = s5"
                by (auto simp: delete_user_profile_def split: sum.splits)
              with t1 t2 t3 t4 t5 evs
              have e: "evs = [DescribeUserProfile u r1, ListApps u r2] @ ev3 @ ev4
                         @ [DeleteUserProfile u r5]" by simp
              show ?thesis
              proof (cases "apps = []")
                case True
                with none t4 have "ev4 = []" by simp
                with e True apps n3 show ?thesis
                  by (intro exI [of _ "[]"] exI [of _ "[DescribeUserProfile u r1, ListApps u r2] @ ev3"]
                        exI [of _ r5]) (simp add: status_queries_def)
              next
                case False
                with last Inr obtain pre ds where
                  sh: "ev4 = pre @ status_queries u apps ds @ [Sleep 5]"
                    "length ds = length apps" "\<forall>d\<in>set ds. terminal (Status d)" by auto
                with n4 have "no_parent_delete pre" by simp
                with e False apps n3 sh show ?thesis
                  by (intro exI [of _ apps] exI [of _ ds]
                        exI [of _ "[DescribeUserProfile u r1, ListApps u r2] @ ev3 @ pre"]
                        exI [of _ r5]) simp
              qed
            qed
          qed
        qed
      qed
    qed
  qed
qed

text \<open>
  C1. Whenever a run of \<^verbatim>\<open>delete_user_profile\<close> requests the parent delete, that
  request is its last event, and it directly follows a full round of status queries
  over the apps that \<^verbatim>\<open>list_apps\<close> returned (and the sleep that ends the round)
  in which every app answered \<^verbatim>\<open>Deleted\<close> or \<^verbatim>\<open>Failed\<close>; nothing before that round
  is a parent delete. A run that never leaves the poll never reaches the request, which
  is the last statement of the function. Conversely the request is made as soon as
  every app has answered \<^verbatim>\<open>Deleted\<close> or \<^verbatim>\<open>Failed\<close>: when the run gets to the poll, and
  after any number of rounds that left some app non-terminal a round finds every listed
  app \<^verbatim>\<open>Deleted\<close> or \<^verbatim>\<open>Failed\<close>, the run returns with the parent delete requested
  right after that round and its sleep. \<^verbatim>\<open>Failed\<close> counts like \<^verbatim>\<open>Deleted\<close>: it does not
  hold the request back. With no apps there is no round and the request follows at
  once.
\<close>

theorem parent_delete_only_after_children_terminal:
  "(\<forall>r s' evs.
      delete_user_profile M u s = Some (r, s') \<and> trace s' = trace s @ evs \<and>
      list_ex is_parent_delete evs \<longrightarrow>
      (\<exists>listed ds pre out.
         evs = pre @ status_queries u listed ds @ (if listed = [] then [] else [Sleep 5])
                 @ [DeleteUserProfile u out] \<and>
         ListApps u (Inr listed) \<in> set pre \<and> no_parent_delete pre \<and>
         length ds = length listed \<and> (\<forall>d\<in>set ds. terminal (Status d)))) \<and>
   (\<forall>as s3 k sk ds s4.
      before_poll M u s = Some (as, s3) \<and> after_rounds M u as k s3 = Some sk \<and>
      query_round M u as sk = (Inr ds, s4) \<and> list_all (\<lambda>d. terminal (Status d)) ds \<longrightarrow>
      (\<exists>out s5.
         call (cli_delete_user_profile M (domain_id M) u) (DeleteUserProfile u)
           (if as = [] then s4 else sleep 5 s4) = (out, s5) \<and>
         delete_user_profile M u s =
           Some (case out of Inl e \<Rightarrow> Inl e | Inr response \<Rightarrow> Inr (Some response), s5) \<and>
         trace s5 = trace s4 @ (if as = [] then [] else [Sleep 5]) @ [DeleteUserProfile u out]))"
proof (intro conjI allI impI)
  fix r s' evs
  assume "delete_user_profile M u s = Some (r, s') \<and> trace s' = trace s @ evs \<and>
      list_ex is_parent_delete evs"
  then show "\<exists>listed ds pre out.
         evs = pre @ status_queries u listed ds @ (if listed = [] then [] else [Sleep 5])
                 @ [DeleteUserProfile u out] \<and>
         ListApps u (Inr listed) \<in> set pre \<and> no_parent_delete pre \<and>
         length ds = length listed \<and> (\<forall>d\<in>set ds. terminal (Status d))"
    using parent_delete_shape [of M u s r s' evs] by blast
next
  fix as s3 k sk ds s4
  assume "before_poll M u s = Some (as, s3) \<and> after_rounds M u as k s3 = Some sk \<and>
      query_round M u as sk = (Inr ds, s4) \<and> list_all (\<lambda>d. terminal (Status d)) ds"
  then show "\<exists>out s5.
         call (cli_delete_user_profile M (domain_id M) u) (DeleteUserProfile u)
           (if as = [] then s4 else sleep 5 s4) = (out, s5) \<and>
         delete_user_profile M u s =
           Some (case out of Inl e \<Rightarrow> Inl e | Inr response \<Rightarrow> Inr (Some response), s5) \<and>
         trace s5 = trace s4 @ (if as = [] then [] else [Sleep 5]) @ [DeleteUserProfile u out]"
    using parent_delete_when_all_terminal [of M u s as s3 k sk ds s4] by blast
qed

theorem parent_delete_only_after_children_terminal_witness:
  "before_poll (scripted failing_child) ''prof-1'' start =
     Some ([jupyter ''A'', jupyter ''B''], \<lparr>world = 2, trace = take 5 failing_child_events\<rparr>) \<and>
   after_rounds (scripted failing_child) ''prof-1'' [jupyter ''A'', jupyter ''B''] 1
       \<lparr>world = 2, trace = take 5 failing_child_events\<rparr> =
     Some \<lparr>world = 4, trace = take 8 failing_child_events\<rparr> \<and>
   query_round (scripted failing_child) ''prof-1'' [jupyter ''A'', jupyter ''B'']
       \<lparr>world = 4, trace = take 8 failing_child_events\<rparr> =
     (Inr [\<lparr>Status = ''Failed''\<rparr>, \<lparr>Status = ''Deleted''\<rparr>],
      \<lparr>world = 6, trace = take 10 failing_child_events\<rparr>) \<and>
   list_all (\<lambda>d. terminal (Status d)) [\<lparr>Status = ''Failed''\<rparr>, \<lparr>Status = ''Deleted''\<rparr>] \<and>
   delete_user_profile (scripted failing_child) ''prof-1'' start
     = Some (Inr (Some []), \<lparr>world = 6, trace = failing_child_events\<rparr>) \<and>
   list_ex is_parent_delete failing_child_events \<and>
   (\<exists>listed ds pre out.
      failing_child_events
        = pre @ status_queries ''prof-1'' listed ds @ (if listed = [] then [] else [Sleep 5])
            @ [DeleteUserProfile ''prof-1'' out] \<and>
      ListApps ''prof-1'' (Inr listed) \<in> set pre \<and> no_parent_delete pre \<and>
      length ds = length listed \<and> (\<forall>d\<in>set ds. terminal (Status d)))"
proof -
  let ?M = "scripted failing_child"
  let ?as = "[jupyter ''A'', jupyter ''B'']"
  let ?s3 = "\<lparr>world = 2 :: nat, trace = take 5 failing_child_events\<rparr>"
  let ?sk = "\<lparr>world = 4 :: nat, trace = take 8 failing_child_events\<rparr>"
  let ?s4 = "\<lparr>world = 6 :: nat, trace = take 10 failing_child_events\<rparr>"
  let ?ds = "[\<lparr>Status = ''Failed''\<rparr>, \<lparr>Status = ''Deleted''\<rparr>]"
  have bp: "before_poll ?M ''prof-1'' start = Some (?as, ?s3)"
    by (simp add: before_poll_def run_defs failing_child_def failing_child_events_def)
  have ar: "after_rounds ?M ''prof-1'' ?as 1 ?s3 = Some ?sk"
    by (simp add: run_defs failing_child_def failing_child_events_def terminal_def)
  have q: "query_round ?M ''prof-1'' ?as ?sk = (Inr ?ds, ?s4)"
    by (simp add: run_defs failing_child_def failing_child_events_def)
  have fin: "list_all (\<lambda>d. terminal (Status d)) ?ds"
    by (simp add: terminal_def)
  have c: "call (cli_delete_user_profile ?M (domain_id ?M) ''prof-1'')
             (DeleteUserProfile ''prof-1'') (if ?as = [] then ?s4 else sleep 5 ?s4) =
           (Inr [], \<lparr>world = 6, trace = failing_child_events\<rparr>)"
    by (simp add: call_def scripted_def sleep_def failing_child_events_def)
  note inst = parent_delete_only_after_children_terminal [of ?M "''prof-1''" start]
  from inst bp ar q fin obtain out s5 where
    "call (cli_delete_user_profile ?M (domain_id ?M) ''prof-1'')
       (DeleteUserProfile ''prof-1'') (if ?as = [] then ?s4 else sleep 5 ?s4) = (out, s5)"
    and "delete_user_profile ?M ''prof-1'' start =
       Some (case out of Inl e \<Rightarrow> Inl e | Inr response \<Rightarrow> Inr (Some response), s5)"
    by blast
  with c have run: "delete_user_profile ?M ''prof-1'' start =
      Some (Inr (Some []), \<lparr>world = 6, trace = failing_child_events\<rparr>)"
    by auto
  have evs: "trace \<lparr>world = 6 :: nat, trace = failing_child_events\<rparr>
               = trace start @ failing_child_events"
    by (simp add: start_def)
  have pd: "list_ex is_parent_delete failing_child_events"
    by (simp add: failing_child_events_def)
  from inst run evs pd
  have "\<exists>listed ds pre out.
      failing_child_events
        = pre @ status_queries ''prof-1'' listed ds @ (if listed = [] then [] else [Sleep 5])
            @ [DeleteUserProfile ''prof-1'' out] \<and>
      ListApps ''prof-1'' (Inr listed) \<in> set pre \<and> no_parent_delete pre \<and>
      length ds = length listed \<and> (\<forall>d\<in>set ds. terminal (Status d))"
    by blast
  with bp ar q fin run pd show ?thesis by blast
qed

section \<open>The poll: a child that disappears\<close>

text \<open>
  C3. The first loop of \<^verbatim>\<open>delete_user_profile\<close> catches \<^verbatim>\<open>ResourceNotFound\<close> from
  \<^verbatim>\<open>describe_app\<close> and goes on; the poll calls \<^verbatim>\<open>describe_app\<close> with no handler. When an
  app is gone at the first status query of the poll, \<^verbatim>\<open>delete_user_profile\<close> raises
  \<^verbatim>\<open>ResourceNotFound\<close>: the app is not counted as \<^verbatim>\<open>Deleted\<close>, the poll stops there and the
  parent delete is not requested.
\<close>

theorem poll_surfaces_not_found:
  "delete_user_profile (scripted vanishing) ''prof-1'' start =
     Some (Inl ResourceNotFound,
       \<lparr>world = 2,
        trace =
          [DescribeUserProfile ''prof-1'' (Inr (profile ''prof-1'' ''r1'')),
           ListApps ''prof-1'' (Inr [jupyter ''A'']),
           DescribeApp ''prof-1'' ''A'' ''JupyterServer'' (Inr \<lparr>Status = ''InService''\<rparr>),
           DeleteApp ''prof-1'' ''A'' ''JupyterServer'' (Inr []),
           DescribeApp ''prof-1'' ''A'' ''JupyterServer'' (Inl ResourceNotFound)]\<rparr>)"
  by (simp add: run_defs vanishing_def)

section \<open>delete_app\<close>

text \<open>
  The claim C8 as written fails: the client refuses the delete request with an access
  denial, and \<^verbatim>\<open>delete_app\<close> returns \<^verbatim>\<open>None\<close> instead of raising.
\<close>

theorem delete_app_swallows_denial_counterexample:
  "delete_app (scripted denied) ''prof-1'' ''A'' ''JupyterServer'' start =
     (Inr None,
      \<lparr>world = 0,
       trace = [DeleteApp ''prof-1'' ''A'' ''JupyterServer''
                  (Inl (ClientError ''AccessDeniedException''))]\<rparr>)"
  by (simp add: run_defs denied_def)

text \<open>
  C8, as the code has it. \<^verbatim>\<open>delete_app\<close> never propagates a failure: when the client
  raises, whatever the exception, it returns \<^verbatim>\<open>None\<close>; when the client answers, it
  returns the response.
\<close>

theorem delete_app_never_raises:
  "(fst (cli_delete_app M (domain_id M) u a t (world s)) = Inl e \<longrightarrow>
      fst (delete_app M u a t s) = Inr None) \<and>
   (fst (cli_delete_app M (domain_id M) u a t (world s)) = Inr response \<longrightarrow>
      fst (delete_app M u a t s) = Inr (Some response))"
  by (auto simp: delete_app_def call_def split: prod.splits sum.splits)

theorem delete_app_never_raises_witness:
  "fst (cli_delete_app (scripted denied) (domain_id (scripted denied)) ''prof-1'' ''A''
          ''JupyterServer'' (world start)) = Inl (ClientError ''AccessDeniedException'') \<and>
   fst (delete_app (scripted denied) ''prof-1'' ''A'' ''JupyterServer'' start) = Inr None"
proof -
  have h: "fst (cli_delete_app (scripted denied) (domain_id (scripted denied)) ''prof-1'' ''A''
          ''JupyterServer'' (world start)) = Inl (ClientError ''AccessDeniedException'')"
    by (simp add: scripted_def denied_def)
  from delete_app_never_raises [of "scripted denied" "''prof-1''" "''A''" "''JupyterServer''" start
      "ClientError ''AccessDeniedException''"] h
  show ?thesis by blast
qed

section \<open>The wait between delete and create\<close>

lemma py_in_str_dicts: "\<not> py_in (PStr u) (map PDict ps)"
  by (induction ps) (simp_all add: py_in_def)

lemma wait_deleted_once:
  "wait_deleted M u s =
     (case list_user_profiles M s of
        (Inl e, s1) \<Rightarrow> Some (Inl e, s1)
      | (Inr ps, s1) \<Rightarrow> Some (Inr (), sleep 5 s1))"
  by (subst wait_deleted.simps) (simp add: py_in_str_dicts split: prod.splits sum.splits)

lemma list_user_profiles_trace:
  "list_user_profiles M s = (r, s') \<Longrightarrow> trace s' = trace s @ [ListUserProfiles r]"
  by (auto simp: list_user_profiles_def call_eq)

lemma create_user_profile_trace:
  "create_user_profile M u role s = (r, s') \<Longrightarrow> trace s' = trace s @ [CreateUserProfile u role r]"
  by (auto simp: create_user_profile_def call_eq)

text \<open>
  The claim C10 as written fails in its consequence: for a profile whose settings hold
  no execution role the wait loop does not wait either, but the argument of the create
  call raises \<^verbatim>\<open>KeyError\<close> after the sleep and no create request is issued.
\<close>

theorem create_skipped_without_role_counterexample:
  "recreate_all_user_profiles (scripted roleless) start =
     Some (Inl (KeyError ''ExecutionRole''),
       \<lparr>world = 0,
        trace =
          [ListUserProfiles (Inr [\<lparr>UserProfileName = ''prof-1''\<rparr>]),
           DescribeUserProfile ''prof-1''
             (Inr \<lparr>UserProfileName = ''prof-1'',
                    UserSettings = Some \<lparr>ExecutionRole = None\<rparr>\<rparr>),
           DescribeUserProfile ''prof-1''
             (Inr \<lparr>UserProfileName = ''prof-1'',
                    UserSettings = Some \<lparr>ExecutionRole = None\<rparr>\<rparr>),
           ListApps ''prof-1'' (Inr []),
           DeleteUserProfile ''prof-1'' (Inr []),
           ListUserProfiles (Inr [\<lparr>UserProfileName = ''prof-1''\<rparr>]),
           Sleep 5]\<rparr>)"
  by (simp add: run_defs roleless_def)

text \<open>
  C10, as the code has it. In \<^verbatim>\<open>recreate_all_user_profiles\<close> the wait loop after
  \<^verbatim>\<open>delete_user_profile\<close> runs its body zero times: the name is a string and the
  listing holds dictionaries, so the membership test is false whatever the listing
  holds. Once \<^verbatim>\<open>delete_user_profile\<close> has returned and the listing has answered, the
  run sleeps 5 once and reaches the create call, whether or not the listing still holds
  the profile: the create request is issued when the described profile holds
  \<^verbatim>\<open>UserSettings\<close> with an \<^verbatim>\<open>ExecutionRole\<close>, and otherwise the subscript raises
  \<^verbatim>\<open>KeyError\<close> and no create request is issued.
\<close>

theorem wait_loop_runs_zero_iterations:
  assumes del: "delete_user_profile M (UserProfileName i) s = Some (Inr r, s1)"
    and lst: "list_user_profiles M s1 = (Inr ps, s2)"
  shows "wait_deleted M (UserProfileName i) s1 = Some (Inr (), sleep 5 s2) \<and>
         (case execution_role i of
            Inl e \<Rightarrow>
              trace (sleep 5 s2) = trace s1 @ [ListUserProfiles (Inr ps), Sleep 5] \<and>
              recreate_profiles M (i # is) s = Some (Inl e, sleep 5 s2)
          | Inr role \<Rightarrow>
              (\<exists>out s3.
                 create_user_profile M (UserProfileName i) role (sleep 5 s2) = (out, s3) \<and>
                 trace s3 = trace s1 @
                   [ListUserProfiles (Inr ps), Sleep 5,
                    CreateUserProfile (UserProfileName i) role out] \<and>
                 recreate_profiles M (i # is) s =
                   (case out of Inl e \<Rightarrow> Some (Inl e, s3)
                    | Inr _ \<Rightarrow> recreate_profiles M is s3)))"
proof -
  have w: "wait_deleted M (UserProfileName i) s1 = Some (Inr (), sleep 5 s2)"
    by (simp add: wait_deleted_once lst)
  from list_user_profiles_trace [OF lst]
  have t2: "trace (sleep 5 s2) = trace s1 @ [ListUserProfiles (Inr ps), Sleep 5]"
    by (simp add: sleep_def)
  show ?thesis
  proof (cases "execution_role i")
    case (Inl e)
    have "recreate_profiles M (i # is) s = Some (Inl e, sleep 5 s2)"
      by (simp add: del w Inl)
    with w t2 Inl show ?thesis by simp
  next
    case (Inr role)
    obtain out s3 where c: "create_user_profile M (UserProfileName i) role (sleep 5 s2) = (out, s3)"
      by fastforce
    from create_user_profile_trace [OF c] t2
    have t: "trace s3 = trace s1 @
        [ListUserProfiles (Inr ps), Sleep 5, CreateUserProfile (UserProfileName i) role out]"
      by simp
    have "recreate_profiles M (i # is) s =
            (case out of Inl e \<Rightarrow> Some (Inl e, s3) | Inr _ \<Rightarrow> recreate_profiles M is s3)"
      by (simp add: del w Inr c split: sum.splits)
    with w c t Inr show ?thesis by simp
  qed
qed

theorem wait_loop_runs_zero_iterations_witness:
  "delete_user_profile (scripted lingering) (UserProfileName (profile ''prof-1'' ''r1'')) start
     = Some (Inr (Some []), lingering_deleted) \<and>
   list_user_profiles (scripted lingering) lingering_deleted
     = (Inr [\<lparr>UserProfileName = ''prof-1''\<rparr>], lingering_listed) \<and>
   wait_deleted (scripted lingering) (UserProfileName (profile ''prof-1'' ''r1'')) lingering_deleted
     = Some (Inr (), sleep 5 lingering_listed) \<and>
   execution_role (profile ''prof-1'' ''r1'') = Inr ''r1'' \<and>
   (\<exists>out s3.
      create_user_profile (scripted lingering) (UserProfileName (profile ''prof-1'' ''r1'')) ''r1''
        (sleep 5 lingering_listed) = (out, s3) \<and>
      trace s3 = trace lingering_deleted @
        [ListUserProfiles (Inr [\<lparr>UserProfileName = ''prof-1''\<rparr>]), Sleep 5,
         CreateUserProfile (UserProfileName (profile ''prof-1'' ''r1'')) ''r1'' out])"
proof -
  have del: "delete_user_profile (scripted lingering) (UserProfileName (profile ''prof-1'' ''r1'')) start
     = Some (Inr (Some []), lingering_deleted)"
    by (simp add: run_defs lingering_def lingering_deleted_def)
  have lst: "list_user_profiles (scripted lingering) lingering_deleted
     = (Inr [\<lparr>UserProfileName = ''prof-1''\<rparr>], lingering_listed)"
    by (simp add: list_user_profiles_def call_def scripted_def lingering_def profile_def
        lingering_deleted_def lingering_listed_def)
  have role: "execution_role (profile ''prof-1'' ''r1'') = Inr ''r1''"
    by (simp add: execution_role_def profile_def)
  from wait_loop_runs_zero_iterations [OF del lst, of "[]"] del lst role
  show ?thesis by (simp only: sum.case) blast
qed

section \<open>The child-delete phase\<close>

lemma status_answers_append [simp]:
  "status_answers (xs @ ys) = status_answers xs @ status_answers ys"
  by (induction xs rule: status_answers.induct) simp_all

lemma delete_requests_append [simp]:
  "delete_requests (xs @ ys) = delete_requests xs @ delete_requests ys"
  by (induction xs rule: delete_requests.induct) simp_all

lemma delete_apps_body_shape:
  assumes "delete_apps_body M u a s = (r, s1)"
  shows "\<exists>out evs. trace s1 = trace s @ evs \<and>
           status_answers evs = [(child u a, out)] \<and>
           delete_requests evs = (if needs_delete out then [child u a] else []) \<and>
           r = (case out of Inl e \<Rightarrow> Inl e | Inr _ \<Rightarrow> Inr ())"
proof -
  obtain out s0 where d: "describe_app M u (AppName a) (AppType a) s = (out, s0)"
    by fastforce
  then have t0: "trace s0 = trace s @ [DescribeApp u (AppName a) (AppType a) out]"
    by (rule describe_app_trace)
  show ?thesis
  proof (cases "needs_delete out")
    case False
    with assms d have "s1 = s0" "r = (case out of Inl e \<Rightarrow> Inl e | Inr _ \<Rightarrow> Inr ())"
      by (auto simp: delete_apps_body_def needs_delete_def split: sum.splits)
    with t0 False show ?thesis
      by (intro exI [of _ out] exI [of _ "[DescribeApp u (AppName a) (AppType a) out]"])
        (simp add: child_def)
  next
    case True
    then obtain response where out: "out = Inr response"
      and st: "Status response \<noteq> ''Deleted''" "Status response \<noteq> ''Deleting''"
      by (auto simp: needs_delete_def split: sum.splits)
    obtain r2 s2 where e: "delete_app M u (AppName a) (AppType a) s0 = (r2, s2)"
      by fastforce
    from delete_app_trace [OF e] obtain dout x where
      t2: "trace s2 = trace s0 @ [DeleteApp u (AppName a) (AppType a) dout]" and r2: "r2 = Inr x"
      by blast
    from assms d out st e r2 have "s1 = s2" "r = Inr ()"
      by (auto simp: delete_apps_body_def)
    with t0 t2 True out show ?thesis
      by (intro exI [of _ out] exI [of _ "[DescribeApp u (AppName a) (AppType a) out,
            DeleteApp u (AppName a) (AppType a) dout]"]) (simp add: child_def)
  qed
qed

text \<open>
  The claim C6 as written fails: an app whose status is already \<^verbatim>\<open>Failed\<close> gets a
  delete request.
\<close>

theorem failed_child_gets_delete_request_counterexample:
  "delete_apps (scripted already_failed) ''prof-1'' [jupyter ''A''] start =
     (Inr Completed,
      \<lparr>world = 1,
       trace = [DescribeApp ''prof-1'' ''A'' ''JupyterServer'' (Inr \<lparr>Status = ''Failed''\<rparr>),
                DeleteApp ''prof-1'' ''A'' ''JupyterServer'' (Inr [])]\<rparr>)"
  by (simp add: run_defs already_failed_def)

text \<open>
  C6, as the code has it. The first loop queries the apps in listing order, each once,
  up to the app where it stops (all of them when it runs through). It requests a delete
  exactly for the apps whose query answered a status other than \<^verbatim>\<open>Deleted\<close> and
  \<^verbatim>\<open>Deleting\<close>, \<^verbatim>\<open>Failed\<close> included, and for no app whose query raised.
\<close>

theorem delete_requested_unless_deleted_or_deleting:
  assumes "delete_apps M u as s = (r, s')" and "trace s' = trace s @ evs"
  shows "\<exists>outs. length outs \<le> length as \<and>
           (r = Inr Completed \<longrightarrow> length outs = length as) \<and>
           status_answers evs = zip (map (child u) as) outs \<and>
           delete_requests evs =
             map (\<lambda>(a, out). child u a) (filter (\<lambda>(a, out). needs_delete out) (zip as outs))"
  using assms
proof (induction as arbitrary: s evs)
  case Nil
  then show ?case by simp
next
  case (Cons a as)
  obtain r1 s1 where b: "delete_apps_body M u a s = (r1, s1)" by fastforce
  from delete_apps_body_shape [OF b] obtain out ev1 where
    ev1: "trace s1 = trace s @ ev1" "status_answers ev1 = [(child u a, out)]"
      "delete_requests ev1 = (if needs_delete out then [child u a] else [])"
    and r1: "r1 = (case out of Inl e \<Rightarrow> Inl e | Inr _ \<Rightarrow> Inr ())"
    by blast
  from Cons.prems(1) b
  have "delete_apps M u as s1 = (r, s') \<or> (s' = s1 \<and> r \<noteq> Inr Completed)"
    by (auto split: sum.splits exn.splits)
  then show ?case
  proof
    assume rest: "delete_apps M u as s1 = (r, s')"
    from delete_apps_events [OF rest] obtain ev2 where ev2: "trace s' = trace s1 @ ev2"
      by blast
    from Cons.IH [OF rest ev2] obtain outs where outs: "length outs \<le> length as"
      "r = Inr Completed \<longrightarrow> length outs = length as"
      "status_answers ev2 = zip (map (child u) as) outs"
      "delete_requests ev2 =
         map (\<lambda>(a, out). child u a) (filter (\<lambda>(a, out). needs_delete out) (zip as outs))"
      by blast
    from Cons.prems(2) ev1(1) ev2 have "evs = ev1 @ ev2" by simp
    with ev1 outs show ?thesis
      by (intro exI [of _ "out # outs"]) simp
  next
    assume stop: "s' = s1 \<and> r \<noteq> Inr Completed"
    with Cons.prems(2) ev1(1) have "evs = ev1" by simp
    with ev1 stop show ?thesis
      by (intro exI [of _ "[out]"]) simp
  qed
qed

theorem delete_requested_unless_deleted_or_deleting_witness:
  "delete_apps (scripted failing_child) ''prof-1'' [jupyter ''A'', jupyter ''B''] start =
     (Inr Completed,
      \<lparr>world = 2,
       trace = [DescribeApp ''prof-1'' ''A'' ''JupyterServer'' (Inr \<lparr>Status = ''InService''\<rparr>),
                DeleteApp ''prof-1'' ''A'' ''JupyterServer'' (Inr []),
                DescribeApp ''prof-1'' ''B'' ''JupyterServer'' (Inr \<lparr>Status = ''Deleted''\<rparr>)]\<rparr>) \<and>
   (\<exists>outs. length outs \<le> length [jupyter ''A'', jupyter ''B''] \<and>
      length outs = length [jupyter ''A'', jupyter ''B''] \<and>
      delete_requests
        [DescribeApp ''prof-1'' ''A'' ''JupyterServer'' (Inr \<lparr>Status = ''InService''\<rparr>),
         DeleteApp ''prof-1'' ''A'' ''JupyterServer'' (Inr []),
         DescribeApp ''prof-1'' ''B'' ''JupyterServer'' (Inr \<lparr>Status = ''Deleted''\<rparr>)] =
        map (\<lambda>(a, out). child ''prof-1'' a)
          (filter (\<lambda>(a, out). needs_delete out) (zip [jupyter ''A'', jupyter ''B''] outs)))"
proof -
  let ?evs = "[DescribeApp ''prof-1'' ''A'' ''JupyterServer'' (Inr \<lparr>Status = ''InService''\<rparr>),
                DeleteApp ''prof-1'' ''A'' ''JupyterServer'' (Inr []),
                DescribeApp ''prof-1'' ''B'' ''JupyterServer'' (Inr \<lparr>Status = ''Deleted''\<rparr>)]"
  have run: "delete_apps (scripted failing_child) ''prof-1'' [jupyter ''A'', jupyter ''B''] start =
     (Inr Completed, \<lparr>world = 2, trace = ?evs\<rparr>)"
    by (simp add: run_defs failing_child_def)
  have evs: "trace \<lparr>world = 2 :: nat, trace = ?evs\<rparr> = trace start @ ?evs"
    by (simp add: start_def)
  from delete_requested_unless_deleted_or_deleting [OF run evs] run show ?thesis by blast
qed

section \<open>The poll: what a round queries\<close>

text \<open>
  The claim C7 as written fails: \<open>A\<close> answers \<^verbatim>\<open>Deleted\<close> on the first round and is
  queried again on the second.
\<close>

theorem terminal_child_queried_again_counterexample:
  "poll_loop (scripted late_sibling) ''prof-1'' [jupyter ''A'', jupyter ''B''] 0
     \<lparr>world = 2, trace = []\<rparr> =
   Some (Inr (),
     \<lparr>world = 6,
      trace = [DescribeApp ''prof-1'' ''A'' ''JupyterServer'' (Inr \<lparr>Status = ''Deleted''\<rparr>),
               DescribeApp ''prof-1'' ''B'' ''JupyterServer'' (Inr \<lparr>Status = ''InService''\<rparr>),
               Sleep 5,
               DescribeApp ''prof-1'' ''A'' ''JupyterServer'' (Inr \<lparr>Status = ''Deleted''\<rparr>),
               DescribeApp ''prof-1'' ''B'' ''JupyterServer'' (Inr \<lparr>Status = ''Deleted''\<rparr>),
               Sleep 5]\<rparr>)"
  by (simp add: run_defs late_sibling_def)

text \<open>
  C7, as the code has it. The poll keeps no set of apps still pending. Every round that
  runs through queries every listed app, in listing order, whatever the answers of the
  earlier rounds, and counts the terminal answers of this round from zero; the loop
  then goes on with that count.
\<close>

theorem every_round_queries_every_child:
  assumes "cnt < length as" and "poll_pass M u as 0 s = (Inr n, s1)"
  shows "(\<exists>ds. length ds = length as \<and> trace s1 = trace s @ status_queries u as ds \<and>
            n = length (filter (\<lambda>d. terminal (Status d)) ds)) \<and>
         poll_loop M u as cnt s = poll_loop M u as n (sleep 5 s1)"
proof -
  from poll_pass_shape [OF assms(2)]
  have "\<exists>ds. length ds = length as \<and> trace s1 = trace s @ status_queries u as ds \<and>
            n = length (filter (\<lambda>d. terminal (Status d)) ds)" by simp
  moreover from assms have "poll_loop M u as cnt s = poll_loop M u as n (sleep 5 s1)"
    by (simp add: poll_loop_step)
  ultimately show ?thesis ..
qed

theorem every_round_queries_every_child_witness:
  "(1::nat) < length [jupyter ''A'', jupyter ''B''] \<and>
   poll_pass (scripted late_sibling) ''prof-1'' [jupyter ''A'', jupyter ''B''] 0
       \<lparr>world = 4, trace = []\<rparr> =
     (Inr 2, \<lparr>world = 6,
        trace = [DescribeApp ''prof-1'' ''A'' ''JupyterServer'' (Inr \<lparr>Status = ''Deleted''\<rparr>),
                 DescribeApp ''prof-1'' ''B'' ''JupyterServer'' (Inr \<lparr>Status = ''Deleted''\<rparr>)]\<rparr>) \<and>
   (\<exists>ds. length ds = length [jupyter ''A'', jupyter ''B''] \<and>
      trace \<lparr>world = 6 :: nat,
        trace = [DescribeApp ''prof-1'' ''A'' ''JupyterServer'' (Inr \<lparr>Status = ''Deleted''\<rparr>),
                 DescribeApp ''prof-1'' ''B'' ''JupyterServer'' (Inr \<lparr>Status = ''Deleted''\<rparr>)]\<rparr>
        = trace \<lparr>world = 4 :: nat, trace = []\<rparr>
            @ status_queries ''prof-1'' [jupyter ''A'', jupyter ''B''] ds \<and>
      (2::nat) = length (filter (\<lambda>d. terminal (Status d)) ds))"
proof -
  have h: "(1::nat) < length [jupyter ''A'', jupyter ''B'']" by simp
  have p: "poll_pass (scripted late_sibling) ''prof-1'' [jupyter ''A'', jupyter ''B''] 0
       \<lparr>world = 4, trace = []\<rparr> =
     (Inr 2, \<lparr>world = 6,
        trace = [DescribeApp ''prof-1'' ''A'' ''JupyterServer'' (Inr \<lparr>Status = ''Deleted''\<rparr>),
                 DescribeApp ''prof-1'' ''B'' ''JupyterServer'' (Inr \<lparr>Status = ''Deleted''\<rparr>)]\<rparr>)"
    by (simp add: run_defs late_sibling_def)
  from every_round_queries_every_child [OF h p] h p show ?thesis by blast
qed

section \<open>A delete request that the client refuses\<close>

lemma poll_loop_last_round:
  assumes "poll_loop M u as 0 s = Some (Inr x, s')" and "a \<in> set as"
  shows "\<exists>evs d. trace s' = trace s @ evs \<and> terminal (Status d) \<and>
           DescribeApp u (AppName a) (AppType a) (Inr d) \<in> set evs"
proof -
  from assms(2) have ne: "0 < length as" by (cases as) simp_all
  from poll_loop_post [OF assms(1)] ne obtain pre ds where
    t: "trace s' = trace s @ pre @ status_queries u as ds @ [Sleep 5]"
    and l: "length ds = length as" and fin: "\<forall>d\<in>set ds. terminal (Status d)"
    unfolding loop_post_def by auto
  from assms(2) obtain i where i: "i < length as" "as ! i = a"
    by (auto simp: in_set_conv_nth)
  with l have "(a, ds ! i) \<in> set (zip as ds)"
    by (auto simp: in_set_zip intro!: exI [of _ i])
  then have "DescribeApp u (AppName a) (AppType a) (Inr (ds ! i)) \<in> set (status_queries u as ds)"
    by (force simp: status_queries_def)
  moreover from i l fin have "terminal (Status (ds ! i))" by simp
  ultimately show ?thesis using t
    by (intro exI [of _ "pre @ status_queries u as ds @ [Sleep 5]"] exI [of _ "ds ! i"]) simp
qed

lemma denied_never_converges:
  "\<not> converges_within (scripted denied) u [jupyter ''A'', jupyter ''B''] k s"
  by (induction k arbitrary: s)
    (simp_all add: denied_def scripted_def describe_app_def call_def jupyter_def)

lemma denied_poll_loop:
  "poll_loop (scripted denied) u [jupyter ''A'', jupyter ''B''] 0 s = None"
proof (cases "poll_loop (scripted denied) u [jupyter ''A'', jupyter ''B''] 0 s")
  case None
  then show ?thesis .
next
  case (Some y)
  from poll_loop_converges [OF Some] denied_never_converges show ?thesis by auto
qed

text \<open>
  The claim C9 as written fails in its bound: the delete request for \<open>A\<close> is refused,
  \<open>A\<close> stays \<^verbatim>\<open>InService\<close>, and the poll queries it without end;
  \<^verbatim>\<open>delete_user_profile\<close> does not return.
\<close>

theorem rejected_child_polled_forever_counterexample:
  "delete_user_profile (scripted denied) ''prof-1'' start = None"
proof -
  let ?s1 = "\<lparr>world = 0 :: nat,
               trace = [DescribeUserProfile ''prof-1'' (Inr (profile ''prof-1'' ''r1''))]\<rparr>"
  let ?s2 = "\<lparr>world = 0 :: nat,
               trace = [DescribeUserProfile ''prof-1'' (Inr (profile ''prof-1'' ''r1'')),
                        ListApps ''prof-1'' (Inr [jupyter ''A'', jupyter ''B''])]\<rparr>"
  let ?s3 = "\<lparr>world = 2 :: nat,
               trace = [DescribeUserProfile ''prof-1'' (Inr (profile ''prof-1'' ''r1'')),
                        ListApps ''prof-1'' (Inr [jupyter ''A'', jupyter ''B'']),
                        DescribeApp ''prof-1'' ''A'' ''JupyterServer'' (Inr \<lparr>Status = ''InService''\<rparr>),
                        DeleteApp ''prof-1'' ''A'' ''JupyterServer''
                          (Inl (ClientError ''AccessDeniedException'')),
                        DescribeApp ''prof-1'' ''B'' ''JupyterServer'' (Inr \<lparr>Status = ''InService''\<rparr>),
                        DeleteApp ''prof-1'' ''B'' ''JupyterServer'' (Inr [])]\<rparr>"
  have d: "describe_user_profile (scripted denied) ''prof-1'' start
             = (Inr (profile ''prof-1'' ''r1''), ?s1)"
    by (simp add: describe_user_profile_def call_def scripted_def denied_def start_def profile_def)
  have l: "list_apps (scripted denied) ''prof-1'' ?s1 = (Inr [jupyter ''A'', jupyter ''B''], ?s2)"
    by (simp add: list_apps_def call_def scripted_def denied_def)
  have da: "delete_apps (scripted denied) ''prof-1'' [jupyter ''A'', jupyter ''B''] ?s2
              = (Inr Completed, ?s3)"
    by (simp add: delete_apps_body_def describe_app_def delete_app_def call_def scripted_def
        denied_def jupyter_def)
  show ?thesis
    by (simp only: delete_user_profile_def d l da denied_poll_loop
        prod.case sum.case flow.case option.case)
qed

lemma delete_apps_append:
  "delete_apps M u pre s = (Inr Completed, s0) \<Longrightarrow>
     delete_apps M u (pre @ post) s = delete_apps M u post s0"
proof (induction pre arbitrary: s)
  case Nil
  then show ?case by simp
next
  case (Cons a pre)
  obtain r1 s1 where b: "delete_apps_body M u a s = (r1, s1)" by fastforce
  with Cons.prems have go: "r1 = Inl ResourceNotFound \<or> (\<exists>x. r1 = Inr x)"
    and rest: "delete_apps M u pre s1 = (Inr Completed, s0)"
    by (auto split: sum.splits exn.splits)
  from go b have "delete_apps M u (a # pre @ post) s = delete_apps M u (pre @ post) s1"
    by auto
  with Cons.IH [OF rest] show ?case by simp
qed

lemma denied_second_never_converges:
  "\<not> converges_within (scripted denied_second) u [jupyter ''B'', jupyter ''A''] k s"
  by (induction k arbitrary: s)
    (simp_all add: denied_second_def denied_def scripted_def describe_app_def call_def
      jupyter_def)

text \<open>
  C9, as the code has it. Take a teardown whose listing holds an app at any position,
  the apps before it having gone through the first loop. When the status query of that
  app answers a status other than \<^verbatim>\<open>Deleted\<close> and \<^verbatim>\<open>Deleting\<close> and the client then
  refuses the delete request with any exception, the refused request raises nothing:
  the first loop goes on with the remaining apps from the state the refused request
  left, and the teardown is that continuation followed by the poll over the whole
  listing. The app stays tracked, with no bound: the teardown requests the parent
  delete only after the app has answered \<^verbatim>\<open>Deleted\<close> or \<^verbatim>\<open>Failed\<close> to a status query made
  after the refused request, and when the first loop runs through and no round of the
  poll ever raises or finds every app terminal, the teardown never returns.
\<close>

theorem rejected_delete_does_not_abort:
  assumes d0: "describe_user_profile M u s = (Inr p, sa)"
    and l0: "list_apps M u sa = (Inr (pre @ a # post), sb)"
    and pre: "delete_apps M u pre sb = (Inr Completed, s0)"
    and d: "describe_app M u (AppName a) (AppType a) s0 = (Inr response, s1)"
    and st: "Status response \<noteq> ''Deleted''" "Status response \<noteq> ''Deleting''"
    and rej: "cli_delete_app M (domain_id M) u (AppName a) (AppType a) (world s1) = (Inl e, w2)"
    and s2: "s2 = \<lparr>world = w2, trace = trace s1 @ [DeleteApp u (AppName a) (AppType a) (Inl e)]\<rparr>"
  shows "delete_apps_body M u a s0 = (Inr (), s2) \<and>
         delete_apps M u (pre @ a # post) sb = delete_apps M u post s2 \<and>
         delete_user_profile M u s =
           (case delete_apps M u post s2 of
              (Inl e', s3) \<Rightarrow> Some (Inl e', s3)
            | (Inr Returned, s3) \<Rightarrow> Some (Inr None, s3)
            | (Inr Completed, s3) \<Rightarrow>
               (case poll_loop M u (pre @ a # post) 0 s3 of
                  None \<Rightarrow> None
                | Some (Inl e', s4) \<Rightarrow> Some (Inl e', s4)
                | Some (Inr _, s4) \<Rightarrow>
                   (case call (cli_delete_user_profile M (domain_id M) u)
                           (DeleteUserProfile u) s4 of
                      (Inl e', s5) \<Rightarrow> Some (Inl e', s5)
                    | (Inr r, s5) \<Rightarrow> Some (Inr (Some r), s5)))) \<and>
         (\<forall>r s' evs.
            delete_user_profile M u s = Some (r, s') \<and> trace s' = trace s2 @ evs \<and>
            list_ex is_parent_delete evs \<longrightarrow>
            (\<exists>d. terminal (Status d) \<and>
               DescribeApp u (AppName a) (AppType a) (Inr d) \<in> set evs)) \<and>
         (\<forall>s3. delete_apps M u post s2 = (Inr Completed, s3) \<and>
            (\<forall>k. \<not> converges_within M u (pre @ a # post) k s3) \<longrightarrow>
            delete_user_profile M u s = None)"
proof -
  from rej have da: "delete_app M u (AppName a) (AppType a) s1 = (Inr None, s2)"
    by (simp add: delete_app_def call_def s2)
  with d st have body: "delete_apps_body M u a s0 = (Inr (), s2)"
    by (simp add: delete_apps_body_def)
  then have "delete_apps M u (a # post) s0 = delete_apps M u post s2" by simp
  with delete_apps_append [OF pre, of "a # post"]
  have loop: "delete_apps M u (pre @ a # post) sb = delete_apps M u post s2" by simp
  have run: "delete_user_profile M u s =
           (case delete_apps M u post s2 of
              (Inl e', s3) \<Rightarrow> Some (Inl e', s3)
            | (Inr Returned, s3) \<Rightarrow> Some (Inr None, s3)
            | (Inr Completed, s3) \<Rightarrow>
               (case poll_loop M u (pre @ a # post) 0 s3 of
                  None \<Rightarrow> None
                | Some (Inl e', s4) \<Rightarrow> Some (Inl e', s4)
                | Some (Inr _, s4) \<Rightarrow>
                   (case call (cli_delete_user_profile M (domain_id M) u)
                           (DeleteUserProfile u) s4 of
                      (Inl e', s5) \<Rightarrow> Some (Inl e', s5)
                    | (Inr r, s5) \<Rightarrow> Some (Inr (Some r), s5))))"
    by (simp only: delete_user_profile_def d0 l0 loop prod.case sum.case)
  obtain r3 s3 where rest: "delete_apps M u post s2 = (r3, s3)" by fastforce
  from delete_apps_events [OF rest] obtain ev3 where
    t3: "trace s3 = trace s2 @ ev3" and a3: "app_events ev3" by blast
  from a3 have n3: "no_parent_delete ev3" by (rule app_events_no_parent_delete)
  have tracked: "\<exists>d. terminal (Status d) \<and>
               DescribeApp u (AppName a) (AppType a) (Inr d) \<in> set evs"
    if ret: "delete_user_profile M u s = Some (r, s')" and evs: "trace s' = trace s2 @ evs"
      and pd: "list_ex is_parent_delete evs" for r s' evs
  proof -
    have stop3: False if "s' = s3"
    proof -
      from that t3 evs have "evs = ev3" by simp
      with n3 pd show False by (simp add: no_parent_delete_iff)
    qed
    show ?thesis
    proof (cases r3)
      case (Inl e')
      with ret run rest have "s' = s3" by simp
      with stop3 show ?thesis by simp
    next
      case fl: (Inr fl)
      show ?thesis
      proof (cases fl)
        case Returned
        with ret run rest fl have "s' = s3" by simp
        with stop3 show ?thesis by simp
      next
        case Completed
        show ?thesis
        proof (cases "poll_loop M u (pre @ a # post) 0 s3")
          case None
          with ret run rest fl Completed show ?thesis by simp
        next
          case (Some y)
          obtain r4 s4 where y: "y = (r4, s4)" by (cases y)
          from poll_loop_post [OF Some] y obtain ev4 where
            t4: "trace s4 = trace s3 @ ev4" and a4: "app_events ev4"
            unfolding loop_post_def by auto
          from a4 have n4: "no_parent_delete ev4" by (rule app_events_no_parent_delete)
          show ?thesis
          proof (cases r4)
            case (Inl e')
            with ret run rest fl Completed Some y have "s' = s4" by simp
            with t3 t4 evs have "evs = ev3 @ ev4" by simp
            with n3 n4 pd show ?thesis by (simp add: no_parent_delete_iff)
          next
            case (Inr x)
            with Some y have pl: "poll_loop M u (pre @ a # post) 0 s3 = Some (Inr x, s4)"
              by simp
            have "a \<in> set (pre @ a # post)" by simp
            from poll_loop_last_round [OF pl this] obtain ev d where
              ev: "trace s4 = trace s3 @ ev" "terminal (Status d)"
                "DescribeApp u (AppName a) (AppType a) (Inr d) \<in> set ev" by blast
            obtain r5 s5 where c: "call (cli_delete_user_profile M (domain_id M) u)
                (DeleteUserProfile u) s4 = (r5, s5)" by fastforce
            then have t5: "trace s5 = trace s4 @ [DeleteUserProfile u r5]"
              by (auto simp: call_eq)
            from ret run rest fl Completed pl c have "s' = s5"
              by (auto split: sum.splits)
            with t3 ev(1) t5 evs have "evs = ev3 @ ev @ [DeleteUserProfile u r5]" by simp
            with ev(2,3) show ?thesis by auto
          qed
        qed
      qed
    qed
  qed
  have hang: "delete_user_profile M u s = None"
    if c3: "delete_apps M u post s2 = (Inr Completed, q3)"
      and never: "\<forall>k. \<not> converges_within M u (pre @ a # post) k q3" for q3
  proof -
    have "poll_loop M u (pre @ a # post) 0 q3 = None"
    proof (cases "poll_loop M u (pre @ a # post) 0 q3")
      case None
      then show ?thesis .
    next
      case (Some y)
      from poll_loop_converges [OF Some] never show ?thesis by simp
    qed
    with run c3 show ?thesis by simp
  qed
  from body loop run tracked hang show ?thesis by blast
qed

theorem rejected_delete_does_not_abort_witness:
  "describe_user_profile (scripted denied_second) ''prof-1'' start =
     (Inr (profile ''prof-1'' ''r1''), \<lparr>world = 0, trace = take 1 refused_events\<rparr>) \<and>
   list_apps (scripted denied_second) ''prof-1'' \<lparr>world = 0, trace = take 1 refused_events\<rparr> =
     (Inr ([jupyter ''B''] @ jupyter ''A'' # []),
      \<lparr>world = 0, trace = take 2 refused_events\<rparr>) \<and>
   delete_apps (scripted denied_second) ''prof-1'' [jupyter ''B'']
       \<lparr>world = 0, trace = take 2 refused_events\<rparr> =
     (Inr Completed, \<lparr>world = 1, trace = take 4 refused_events\<rparr>) \<and>
   describe_app (scripted denied_second) ''prof-1'' (AppName (jupyter ''A''))
       (AppType (jupyter ''A'')) \<lparr>world = 1, trace = take 4 refused_events\<rparr> =
     (Inr \<lparr>Status = ''InService''\<rparr>, \<lparr>world = 2, trace = take 5 refused_events\<rparr>) \<and>
   cli_delete_app (scripted denied_second) (domain_id (scripted denied_second)) ''prof-1''
       (AppName (jupyter ''A'')) (AppType (jupyter ''A'')) 2 =
     (Inl (ClientError ''AccessDeniedException''), 2) \<and>
   delete_apps (scripted denied_second) ''prof-1'' ([jupyter ''B''] @ jupyter ''A'' # [])
       \<lparr>world = 0, trace = take 2 refused_events\<rparr> =
     (Inr Completed, \<lparr>world = 2, trace = refused_events\<rparr>) \<and>
   delete_user_profile (scripted denied_second) ''prof-1'' start = None"
proof -
  let ?M = "scripted denied_second"
  let ?sa = "\<lparr>world = 0 :: nat, trace = take 1 refused_events\<rparr>"
  let ?sb = "\<lparr>world = 0 :: nat, trace = take 2 refused_events\<rparr>"
  let ?s0 = "\<lparr>world = 1 :: nat, trace = take 4 refused_events\<rparr>"
  let ?s1 = "\<lparr>world = 2 :: nat, trace = take 5 refused_events\<rparr>"
  let ?s2 = "\<lparr>world = 2 :: nat, trace = refused_events\<rparr>"
  have d0: "describe_user_profile ?M ''prof-1'' start = (Inr (profile ''prof-1'' ''r1''), ?sa)"
    by (simp add: run_defs denied_second_def denied_def refused_events_def)
  have l0: "list_apps ?M ''prof-1'' ?sa = (Inr ([jupyter ''B''] @ jupyter ''A'' # []), ?sb)"
    by (simp add: run_defs denied_second_def denied_def refused_events_def)
  have pre: "delete_apps ?M ''prof-1'' [jupyter ''B''] ?sb = (Inr Completed, ?s0)"
    by (simp add: run_defs denied_second_def denied_def refused_events_def)
  have d: "describe_app ?M ''prof-1'' (AppName (jupyter ''A'')) (AppType (jupyter ''A'')) ?s0 =
      (Inr \<lparr>Status = ''InService''\<rparr>, ?s1)"
    by (simp add: run_defs denied_second_def denied_def refused_events_def)
  have st: "Status \<lparr>Status = ''InService''\<rparr> \<noteq> ''Deleted''"
    "Status \<lparr>Status = ''InService''\<rparr> \<noteq> ''Deleting''"
    by simp_all
  have rej: "cli_delete_app ?M (domain_id ?M) ''prof-1'' (AppName (jupyter ''A''))
       (AppType (jupyter ''A'')) (world ?s1) = (Inl (ClientError ''AccessDeniedException''), 2)"
    by (simp add: scripted_def denied_second_def denied_def jupyter_def)
  have s2: "?s2 = \<lparr>world = 2, trace = trace ?s1 @
      [DeleteApp ''prof-1'' (AppName (jupyter ''A'')) (AppType (jupyter ''A''))
         (Inl (ClientError ''AccessDeniedException''))]\<rparr>"
    by (simp add: refused_events_def jupyter_def)
  note inst = rejected_delete_does_not_abort [OF d0 l0 pre d st rej s2]
  have rest: "delete_apps ?M ''prof-1'' [] ?s2 = (Inr Completed, ?s2)" by simp
  from inst rest have loop: "delete_apps ?M ''prof-1'' ([jupyter ''B''] @ jupyter ''A'' # []) ?sb =
      (Inr Completed, ?s2)" by simp
  have never: "\<forall>k. \<not> converges_within ?M ''prof-1'' ([jupyter ''B''] @ jupyter ''A'' # []) k ?s2"
    by (simp add: denied_second_never_converges)
  from inst rest never have hang: "delete_user_profile ?M ''prof-1'' start = None"
    by blast
  from d0 l0 pre d rej loop hang show ?thesis by simp
qed

section \<open>Replacing all profiles\<close>






text \<open>
  C5. The status query of the profile's app raises \<^verbatim>\<open>ResourceInUse\<close>, so
  \<^verbatim>\<open>delete_user_profile\<close> returns without requesting the parent delete. The wait loop
  that follows does not wait (C10), and the create request is issued although the
  profile was not torn down and is still listed.
\<close>

theorem create_without_parent_delete:
  "recreate_all_user_profiles (scripted in_use) start =
     Some (Inr (),
       \<lparr>world = 1,
        trace =
          [ListUserProfiles (Inr [\<lparr>UserProfileName = ''prof-1''\<rparr>]),
           DescribeUserProfile ''prof-1'' (Inr (profile ''prof-1'' ''r1'')),
           DescribeUserProfile ''prof-1'' (Inr (profile ''prof-1'' ''r1'')),
           ListApps ''prof-1'' (Inr [jupyter ''A'']),
           DescribeApp ''prof-1'' ''A'' ''JupyterServer'' (Inl ResourceInUse),
           ListUserProfiles (Inr [\<lparr>UserProfileName = ''prof-1''\<rparr>]),
           Sleep 5,
           CreateUserProfile ''prof-1'' ''r1'' (Inr [])]\<rparr>)"
  by (simp add: run_defs in_use_def)

end
